theory Spec2Isabelle
  imports Complex_Main
begin

section \<open>Errors\<close>

text \<open>
  The Python exceptions the modelled functions can raise. A function that may raise
  returns \<open>error + 'a\<close>, with \<open>Inl\<close> for the exception.
\<close>

datatype error =
    ZeroDivisionError
  | KeyError string
  | ValueError string
  | TypeError
  | OverflowError
  | RuntimeError string

section \<open>Scheduler: \<open>align_next_slot\<close> (deribit\_rest\_30m.py)\<close>

text \<open>
  A \<open>datetime\<close> is its number of microseconds since 0001-01-01 00:00:00 on its own
  wall clock; Python's \<open>datetime\<close> has no leap seconds, so field access and
  \<open>timedelta\<close> arithmetic are integer arithmetic on that number. The upper end of
  Python's range (year 9999) is not modelled.
\<close>

type_synonym datetime = int

definition us_per_minute :: int where
  "us_per_minute = 60000000"

definition mk_datetime :: "int \<Rightarrow> int \<Rightarrow> int \<Rightarrow> int \<Rightarrow> int \<Rightarrow> datetime" where
  \<comment> \<open>day number (0 for 0001-01-01), hour, minute, second, microsecond\<close>
  "mk_datetime d h m s us = (((d * 24 + h) * 60 + m) * 60 + s) * 1000000 + us"

definition dt_minute :: "datetime \<Rightarrow> int" where
  \<comment> \<open>\<open>t.minute\<close>\<close>
  "dt_minute t = (t div us_per_minute) mod 60"

definition replace_second_microsecond_0 :: "datetime \<Rightarrow> datetime" where
  \<comment> \<open>\<open>t.replace(second=0, microsecond=0)\<close>\<close>
  "replace_second_microsecond_0 t = t - t mod us_per_minute"

definition replace_minute_0 :: "datetime \<Rightarrow> datetime" where
  \<comment> \<open>\<open>t.replace(minute=0)\<close>\<close>
  "replace_minute_0 t = t - dt_minute t * us_per_minute"

definition add_minutes :: "datetime \<Rightarrow> int \<Rightarrow> datetime" where
  \<comment> \<open>\<open>t + timedelta(minutes=k)\<close>\<close>
  "add_minutes t k = t + k * us_per_minute"

definition align_next_slot :: "datetime \<Rightarrow> int \<Rightarrow> error + datetime" where
  "align_next_slot start minutes =
     (let base = replace_second_microsecond_0 start;
          step = minutes
      in if step = 0 then Inl ZeroDivisionError
         else
           let k = (dt_minute base div step + 1) * step;
               target = add_minutes (replace_minute_0 base) k
           in if target \<le> start then Inr (add_minutes target step) else Inr target)"

section \<open>Bounded fetcher: \<open>gather_order_books\<close> (deribit\_rest\_30m.py)\<close>

text \<open>
  The fields of \<open>Config\<close> that the fetch batch reads.
\<close>

record Config =
  max_concurrency :: int
  per_request_delay_ms :: int
  max_retries :: int
  retry_delay_ms :: int

text \<open>
  The network is an oracle: \<open>fetch n\<close> is what the \<open>n\<close>-th call of
  \<open>fetch_order_book\<close> for one instrument does, raising (\<open>Inl\<close>) or returning the
  ticker payload. \<open>make_row\<close> is a parameter: it may raise as well (a payload
  without \<open>best_bid_price\<close> is a \<open>KeyError\<close>), and it runs inside the same
  \<open>try\<close> block.
\<close>

definition try_body :: "(nat \<Rightarrow> error + 'ob) \<Rightarrow> ('ob \<Rightarrow> error + 'row) \<Rightarrow> nat \<Rightarrow> error + 'row" where
  \<comment> \<open>\<open>ob = await fetch_order_book(client, inst); make_row(slot_time, under, inst, ob)\<close>\<close>
  "try_body fetch mk n = (case fetch n of Inl e \<Rightarrow> Inl e | Inr ob \<Rightarrow> mk ob)"

text \<open>
  The state a worker changes: the shared list \<open>rows\<close> and the log, which gets one
  warning per caught exception. The two sleeps change neither.
\<close>

type_synonym 'row fetch_state = "'row list \<times> error list"

function worker_loop ::
  "Config \<Rightarrow> (nat \<Rightarrow> error + 'row) \<Rightarrow> int \<Rightarrow> 'row fetch_state \<Rightarrow> 'row fetch_state" where
  "worker_loop cfg body retry_count (rows, warnings) =
     (if retry_count < max_retries cfg then
        (case body (nat retry_count) of
           Inr row \<Rightarrow> (rows @ [row], warnings)
         | Inl e \<Rightarrow> worker_loop cfg body (retry_count + 1) (rows, warnings @ [e]))
      else (rows, warnings))"
  by pat_completeness auto
termination
  by (relation "measure (\<lambda>(cfg, body, retry_count, st). nat (max_retries cfg - retry_count))") auto

declare worker_loop.simps [simp del]

definition worker ::
  "Config \<Rightarrow> (nat \<Rightarrow> error + 'ob) \<Rightarrow> ('ob \<Rightarrow> error + 'row) \<Rightarrow> 'row fetch_state \<Rightarrow> 'row fetch_state" where
  "worker cfg fetch mk st = worker_loop cfg (try_body fetch mk) 0 st"

text \<open>
  The batch. Each worker appends to \<open>rows\<close> at most once and reads nothing another
  worker writes, so the schedule only decides the order of the rows; the model runs the
  workers in dispatch order. \<open>fetch i\<close> is the oracle of the \<open>i\<close>-th instrument of
  the batch. The semaphore is where the batch can fail as a whole:
  \<open>asyncio.Semaphore\<close> raises \<open>ValueError\<close> on a negative value, and with value 0
  no worker is ever admitted, so \<open>gather\<close> waits forever.
\<close>

datatype 'a outcome = Returned 'a | Raised error | Blocked

fun run_workers ::
  "Config \<Rightarrow> (nat \<Rightarrow> nat \<Rightarrow> error + 'ob) \<Rightarrow> (string \<Rightarrow> string \<Rightarrow> 'ob \<Rightarrow> error + 'row) \<Rightarrow>
   nat \<Rightarrow> (string \<times> string) list \<Rightarrow> 'row fetch_state \<Rightarrow> 'row fetch_state" where
  "run_workers cfg fetch mk i [] st = st"
| "run_workers cfg fetch mk i ((cur, inst) # rest) st =
     run_workers cfg fetch mk (Suc i) rest (worker cfg (fetch i) (mk cur inst) st)"

definition gather_order_books ::
  "Config \<Rightarrow> datetime \<Rightarrow> (nat \<Rightarrow> nat \<Rightarrow> error + 'ob) \<Rightarrow>
   (datetime \<Rightarrow> string \<Rightarrow> string \<Rightarrow> 'ob \<Rightarrow> error + 'row) \<Rightarrow>
   (string \<times> string) list \<Rightarrow> 'row fetch_state outcome" where
  "gather_order_books cfg now fetch make_row instruments =
     (if max_concurrency cfg < 0 then Raised (ValueError ''Semaphore initial value must be >= 0'')
      else
        let slot_time = replace_second_microsecond_0 now
        in if max_concurrency cfg = 0 \<and> instruments \<noteq> [] then Blocked
           else Returned (run_workers cfg fetch (make_row slot_time) 0 instruments ([], [])))"

text \<open>
  What one instrument of the batch adds to \<open>rows\<close>, and the two histories the retry
  rule speaks of.
\<close>

definition contribution ::
  "Config \<Rightarrow> datetime \<Rightarrow> (nat \<Rightarrow> nat \<Rightarrow> error + 'ob) \<Rightarrow>
   (datetime \<Rightarrow> string \<Rightarrow> string \<Rightarrow> 'ob \<Rightarrow> error + 'row) \<Rightarrow>
   (string \<times> string) list \<Rightarrow> nat \<Rightarrow> 'row list" where
  "contribution cfg now fetch make_row instruments i =
     fst (worker cfg (fetch i)
            (make_row (replace_second_microsecond_0 now) (fst (instruments ! i)) (snd (instruments ! i)))
            ([], []))"

definition fails_then_succeeds :: "Config \<Rightarrow> (nat \<Rightarrow> error + 'row) \<Rightarrow> 'row \<Rightarrow> bool" where
  "fails_then_succeeds cfg body row \<longleftrightarrow>
     0 < max_retries cfg \<and>
     list_all (\<lambda>n. isl (body n)) [0..<nat (max_retries cfg - 1)] \<and>
     body (nat (max_retries cfg - 1)) = Inr row"

definition always_fails :: "Config \<Rightarrow> (nat \<Rightarrow> error + 'row) \<Rightarrow> bool" where
  "always_fails cfg body \<longleftrightarrow> list_all (\<lambda>n. isl (body n)) [0..<nat (max_retries cfg)]"

definition instrument_body ::
  "datetime \<Rightarrow> (nat \<Rightarrow> nat \<Rightarrow> error + 'ob) \<Rightarrow>
   (datetime \<Rightarrow> string \<Rightarrow> string \<Rightarrow> 'ob \<Rightarrow> error + 'row) \<Rightarrow>
   (string \<times> string) list \<Rightarrow> nat \<Rightarrow> nat \<Rightarrow> error + 'row" where
  \<comment> \<open>the attempts of the \<open>i\<close>-th instrument of the batch\<close>
  "instrument_body now fetch make_row instruments i =
     try_body (fetch i)
       (make_row (replace_second_microsecond_0 now) (fst (instruments ! i)) (snd (instruments ! i)))"

text \<open>A batch of two instruments, three attempts each: the first succeeds at its third
  attempt, the second never.\<close>

definition example_cfg :: Config where
  "example_cfg = \<lparr>max_concurrency = 2, per_request_delay_ms = 50, max_retries = 3,
                  retry_delay_ms = 200\<rparr>"

definition example_batch :: "(string \<times> string) list" where
  "example_batch = [(''BTC'', ''BTC-27OCT25-65000-C''), (''BTC'', ''BTC-27OCT25-70000-P'')]"

definition example_fetch :: "nat \<Rightarrow> nat \<Rightarrow> error + int" where
  "example_fetch i n = (if i = 0 \<and> n = 2 then Inr 42 else Inl (RuntimeError ''timeout''))"

definition example_make_row :: "datetime \<Rightarrow> string \<Rightarrow> string \<Rightarrow> int \<Rightarrow> error + (datetime \<times> string \<times> int)" where
  "example_make_row slot_time cur inst ob = Inr (slot_time, inst, ob)"

section \<open>Instrument names: \<open>parse_instrument_name\<close> (normalize.py)\<close>

text \<open>
  Names are ASCII strings. The two regular expressions are anchored and every character
  class in them excludes \<open>-\<close>, so a name matches exactly when its \<open>-\<close>-separated
  parts match the classes one by one; \<open>$\<close> also matches before one final newline.
\<close>

definition is_digit :: "char \<Rightarrow> bool" where
  "is_digit c \<longleftrightarrow> c \<in> set ''0123456789''"

definition is_upper :: "char \<Rightarrow> bool" where
  "is_upper c \<longleftrightarrow> c \<in> set ''ABCDEFGHIJKLMNOPQRSTUVWXYZ''"

definition upper_char :: "char \<Rightarrow> char" where
  "upper_char c =
     (case map_of (zip ''abcdefghijklmnopqrstuvwxyz'' ''ABCDEFGHIJKLMNOPQRSTUVWXYZ'') c of
        Some u \<Rightarrow> u | None \<Rightarrow> c)"

definition upper :: "string \<Rightarrow> string" where
  \<comment> \<open>\<open>s.upper()\<close>\<close>
  "upper s = map upper_char s"

fun split_on :: "char \<Rightarrow> string \<Rightarrow> string list" where
  \<comment> \<open>\<open>s.split(sep)\<close> for a separator of one character\<close>
  "split_on sep [] = [[]]"
| "split_on sep (c # cs) =
     (if c = sep then [] # split_on sep cs
      else (case split_on sep cs of w # ws \<Rightarrow> (c # w) # ws | [] \<Rightarrow> [[c]]))"

definition before_final_newline :: "string \<Rightarrow> string" where
  \<comment> \<open>the part of the subject that \<open>^...$\<close> has to cover\<close>
  "before_final_newline s =
     (if s \<noteq> [] \<and> last s = CHR 0x0A then butlast s else s)"

definition match_expiry :: "string \<Rightarrow> (string \<times> string \<times> string) option" where
  \<comment> \<open>\<open>(?P<day>\d{1,2})(?P<mon>[A-Z]{3})(?P<year>\d{2})\<close> on a whole part\<close>
  "match_expiry e =
     (let n = length e
      in if n = 6 \<or> n = 7 then
           let day = take (n - 5) e; mon = take 3 (drop (n - 5) e); year = drop (n - 2) e
           in if list_all is_digit day \<and> list_all is_upper mon \<and> list_all is_digit year
              then Some (day, mon, year) else None
         else None)"

definition match_underlying :: "string \<Rightarrow> bool" where
  \<comment> \<open>\<open>[A-Z0-9]+\<close>\<close>
  "match_underlying u \<longleftrightarrow> u \<noteq> [] \<and> list_all (\<lambda>c. is_upper c \<or> is_digit c) u"

definition match_strike :: "string \<Rightarrow> bool" where
  \<comment> \<open>\<open>\d+(?:\.\d+)*\<close>\<close>
  "match_strike s \<longleftrightarrow> list_all (\<lambda>p. p \<noteq> [] \<and> list_all is_digit p) (split_on (CHR ''.'') s)"

record opt_groups =
  g_underlying :: string
  g_day :: string
  g_mon :: string
  g_year :: string
  g_strike :: string
  g_opt :: string

definition DERIBIT_OPT :: "string \<Rightarrow> opt_groups option" where
  "DERIBIT_OPT name =
     (case split_on (CHR ''-'') (before_final_newline name) of
        [u, e, s, opt] \<Rightarrow>
          (case match_expiry e of
             Some (day, mon, year) \<Rightarrow>
               if match_underlying u \<and> match_strike s \<and> (opt = ''C'' \<or> opt = ''P'')
               then Some \<lparr>g_underlying = u, g_day = day, g_mon = mon, g_year = year,
                          g_strike = s, g_opt = opt\<rparr>
               else None
           | None \<Rightarrow> None)
      | _ \<Rightarrow> None)"

definition DERIBIT_FUT :: "string \<Rightarrow> opt_groups option" where
  \<comment> \<open>the groups \<open>strike\<close> and \<open>opt\<close> do not exist in this pattern and stay empty\<close>
  "DERIBIT_FUT name =
     (case split_on (CHR ''-'') (before_final_newline name) of
        [u, e] \<Rightarrow>
          (case match_expiry e of
             Some (day, mon, year) \<Rightarrow>
               if match_underlying u
               then Some \<lparr>g_underlying = u, g_day = day, g_mon = mon, g_year = year,
                          g_strike = [], g_opt = []\<rparr>
               else None
           | None \<Rightarrow> None)
      | _ \<Rightarrow> None)"

definition MON_MAP :: "(string \<times> nat) list" where
  "MON_MAP = [(''JAN'', 1), (''FEB'', 2), (''MAR'', 3), (''APR'', 4), (''MAY'', 5), (''JUN'', 6),
              (''JUL'', 7), (''AUG'', 8), (''SEP'', 9), (''OCT'', 10), (''NOV'', 11), (''DEC'', 12)]"

definition digit_value :: "char \<Rightarrow> nat" where
  "digit_value c = length (takeWhile (\<lambda>d. d \<noteq> c) ''0123456789'')"

definition digit_char :: "nat \<Rightarrow> char" where
  "digit_char d = ''0123456789'' ! d"

definition int_of_digits :: "string \<Rightarrow> nat" where
  \<comment> \<open>\<open>int(s)\<close> for a string of decimal digits\<close>
  "int_of_digits s = foldl (\<lambda>a c. 10 * a + digit_value c) 0 s"

function digits_of :: "nat \<Rightarrow> string" where
  "digits_of n = (if n < 10 then [digit_char n] else digits_of (n div 10) @ [digit_char (n mod 10)])"
  by pat_completeness auto
termination
  by (relation "measure id") auto

declare digits_of.simps [simp del]

definition format_0d :: "nat \<Rightarrow> nat \<Rightarrow> string" where
  \<comment> \<open>\<open>f"{n:0wd}"\<close> for a number that is not negative\<close>
  "format_0d w n = (let s = digits_of n in replicate (w - length s) (CHR ''0'') @ s)"

definition real_of_digits :: "string \<Rightarrow> real" where
  \<comment> \<open>the value of a string of decimal digits, as a float\<close>
  "real_of_digits s = foldl (\<lambda>a c. 10 * a + real (digit_value c)) 0 s"

definition float_of_strike :: "string \<Rightarrow> error + real" where
  \<comment> \<open>\<open>float(s)\<close> for a string that matches \<open>\d+(?:\.\d+)*\<close>: Python accepts at most
      one decimal point. The value is the decimal the string denotes; rounding to a
      double is not modelled.\<close>
  "float_of_strike s =
     (case split_on (CHR ''.'') s of
        [a] \<Rightarrow> Inr (real_of_digits a)
      | [a, b] \<Rightarrow> Inr (real_of_digits a + real_of_digits b / 10 ^ length b)
      | _ \<Rightarrow> Inl (ValueError s))"

record ParsedInstrument =
  kind :: string
  underlying :: string
  maturity :: string
  option_type :: "string option"
  strike :: "real option"

definition maturity_string :: "nat \<Rightarrow> nat \<Rightarrow> nat \<Rightarrow> string" where
  \<comment> \<open>\<open>f"{year:04d}-{mon:02d}-{day:02d}"\<close>\<close>
  "maturity_string year mon day = format_0d 4 year @ ''-'' @ format_0d 2 mon @ ''-'' @ format_0d 2 day"

definition parse_instrument_name :: "string \<Rightarrow> error + ParsedInstrument" where
  "parse_instrument_name name =
     (case DERIBIT_OPT name of
        Some d \<Rightarrow>
          (let day = int_of_digits (g_day d)
           in case map_of MON_MAP (upper (g_mon d)) of
                None \<Rightarrow> Inl (KeyError (upper (g_mon d)))
              | Some mon \<Rightarrow>
                  let year = 2000 + int_of_digits (g_year d);
                      mat = maturity_string year mon day
                  in (case float_of_strike (g_strike d) of
                        Inl e \<Rightarrow> Inl e
                      | Inr k \<Rightarrow>
                          Inr \<lparr>kind = ''option'', underlying = g_underlying d, maturity = mat,
                               option_type = Some (g_opt d), strike = Some k\<rparr>))
      | None \<Rightarrow>
          (case DERIBIT_FUT name of
             Some d \<Rightarrow>
               (let day = int_of_digits (g_day d)
                in case map_of MON_MAP (upper (g_mon d)) of
                     None \<Rightarrow> Inl (KeyError (upper (g_mon d)))
                   | Some mon \<Rightarrow>
                       let year = 2000 + int_of_digits (g_year d);
                           mat = maturity_string year mon day
                       in Inr \<lparr>kind = ''future'', underlying = g_underlying d, maturity = mat,
                               option_type = None, strike = None\<rparr>)
           | None \<Rightarrow>
               Inr \<lparr>kind = ''unknown'', underlying = '''', maturity = '''',
                    option_type = None, strike = None\<rparr>))"

section \<open>Floats, cells and data frames\<close>

text \<open>
  A float is a real number, an infinity or NaN: the special values are those of IEEE
  arithmetic, on which the cleaning functions rely; rounding, overflow and the sign of
  zero are not modelled (a zero divisor is the positive zero). In a float column NaN is
  the null value.
\<close>

datatype fval = Fin real | PInf | NInf | NaN

fun fle :: "fval \<Rightarrow> fval \<Rightarrow> bool" where
  \<comment> \<open>\<open>a <= b\<close>: every comparison with NaN is false\<close>
  "fle NaN b = False"
| "fle a NaN = False"
| "fle NInf b = True"
| "fle a PInf = True"
| "fle PInf b = False"
| "fle a NInf = False"
| "fle (Fin x) (Fin y) = (x \<le> y)"

fun flt :: "fval \<Rightarrow> fval \<Rightarrow> bool" where
  \<comment> \<open>\<open>a < b\<close>\<close>
  "flt NaN b = False"
| "flt a NaN = False"
| "flt PInf b = False"
| "flt a NInf = False"
| "flt NInf b = True"
| "flt a PInf = True"
| "flt (Fin x) (Fin y) = (x < y)"

definition fge :: "fval \<Rightarrow> fval \<Rightarrow> bool" where
  "fge a b = fle b a"

definition fgt :: "fval \<Rightarrow> fval \<Rightarrow> bool" where
  "fgt a b = flt b a"

fun fneg :: "fval \<Rightarrow> fval" where
  "fneg (Fin x) = Fin (- x)"
| "fneg PInf = NInf"
| "fneg NInf = PInf"
| "fneg NaN = NaN"

fun fadd :: "fval \<Rightarrow> fval \<Rightarrow> fval" where
  "fadd NaN b = NaN"
| "fadd a NaN = NaN"
| "fadd PInf NInf = NaN"
| "fadd NInf PInf = NaN"
| "fadd PInf b = PInf"
| "fadd NInf b = NInf"
| "fadd a PInf = PInf"
| "fadd a NInf = NInf"
| "fadd (Fin x) (Fin y) = Fin (x + y)"

definition fsub :: "fval \<Rightarrow> fval \<Rightarrow> fval" where
  "fsub a b = fadd a (fneg b)"

definition inf_of_sign :: "real \<Rightarrow> fval" where
  \<comment> \<open>the infinity with the sign of a number, NaN for 0\<close>
  "inf_of_sign x = (if 0 < x then PInf else if x < 0 then NInf else NaN)"

fun fdiv :: "fval \<Rightarrow> fval \<Rightarrow> fval" where
  "fdiv NaN b = NaN"
| "fdiv a NaN = NaN"
| "fdiv (Fin x) (Fin y) = (if y = 0 then inf_of_sign x else Fin (x / y))"
| "fdiv (Fin x) b = Fin 0"
| "fdiv PInf (Fin y) = (if y < 0 then NInf else PInf)"
| "fdiv NInf (Fin y) = (if y < 0 then PInf else NInf)"
| "fdiv a b = NaN"

fun flog :: "fval \<Rightarrow> fval" where
  \<comment> \<open>\<open>np.log\<close>: \<open>-inf\<close> at 0, NaN below 0\<close>
  "flog (Fin x) = (if 0 < x then Fin (ln x) else if x = 0 then NInf else NaN)"
| "flog PInf = PInf"
| "flog NInf = NaN"
| "flog NaN = NaN"

text \<open>
  A cell holds a float, a string, a truth value, a time or \<open>None\<close>. A data frame is its
  ordered column names and its rows; a row gives a cell for every column name, and only
  the cells of the frame's columns mean anything.
\<close>

datatype cell = Num fval | Str string | Bool bool | Time datetime | Null

type_synonym row = "string \<Rightarrow> cell"

record frame =
  columns :: "string list"
  records :: "row list"

fun num_of :: "cell \<Rightarrow> fval" where
  "num_of (Num x) = x"
| "num_of c = NaN"

fun is_float :: "cell \<Rightarrow> bool" where
  "is_float (Num x) = True"
| "is_float c = False"

definition float_column :: "frame \<Rightarrow> string \<Rightarrow> bool" where
  \<comment> \<open>the column has dtype float64\<close>
  "float_column df c \<longleftrightarrow> list_all (\<lambda>r. is_float (r c)) (records df)"

definition set_column :: "string \<Rightarrow> (row \<Rightarrow> cell) \<Rightarrow> frame \<Rightarrow> frame" where
  \<comment> \<open>\<open>df[c] = ...\<close> with a value computed row by row: an existing column keeps its
      place, a new one goes last\<close>
  "set_column c f df =
     df\<lparr>columns := (if c \<in> set (columns df) then columns df else columns df @ [c]),
        records := map (\<lambda>r. r(c := f r)) (records df)\<rparr>"

section \<open>Quality control (cleaning.py)\<close>

text \<open>
  The cleaning functions compute on float columns, which is what \<open>standardize\<close> makes
  of \<open>bid\<close>, \<open>ask\<close>, \<open>iv\<close>, \<open>strike\<close> and \<open>underlying_price\<close>. On a column of
  another dtype the model reports \<open>TypeError\<close>.
\<close>

record QCLimits =
  iv_min :: fval
  iv_max :: fval

definition QCLimits_default :: QCLimits where
  "QCLimits_default = \<lparr>iv_min = Fin 0.01, iv_max = Fin 5\<rparr>"

definition compute_mid_and_spread :: "frame \<Rightarrow> error + frame" where
  "compute_mid_and_spread df =
     (if set [''bid'', ''ask''] \<subseteq> set (columns df) then
        if \<not> (float_column df ''ask'' \<and> float_column df ''bid'') then Inl TypeError
        else if ''mid'' \<notin> set (columns df) then Inl (KeyError ''mid'')
        else if \<not> float_column df ''mid'' then Inl TypeError
        else Inr (set_column ''spread_rel''
               (\<lambda>r. Num (fdiv (fsub (num_of (r ''ask'')) (num_of (r ''bid''))) (num_of (r ''mid''))))
               df)
      else Inr df)"

definition bid_ask_ok :: "row \<Rightarrow> bool" where
  \<comment> \<open>\<open>(out["bid"] >= 0) & (out["ask"] > 0) & (out["ask"] >= out["bid"])\<close>\<close>
  "bid_ask_ok r \<longleftrightarrow>
     fge (num_of (r ''bid'')) (Fin 0) \<and> fgt (num_of (r ''ask'')) (Fin 0) \<and>
     fge (num_of (r ''ask'')) (num_of (r ''bid''))"

definition enforce_bid_ask_rules :: "frame \<Rightarrow> error + frame" where
  "enforce_bid_ask_rules df =
     (if set [''bid'', ''ask''] \<subseteq> set (columns df) then
        if \<not> (float_column df ''bid'' \<and> float_column df ''ask'') then Inl TypeError
        else Inr (df\<lparr>records := filter bid_ask_ok (records df)\<rparr>)
      else Inr df)"

definition add_moneyness :: "frame \<Rightarrow> error + frame" where
  "add_moneyness df =
     (if set [''strike'', ''index_price''] \<subseteq> set (columns df) then
        if ''underlying_price'' \<notin> set (columns df) then Inl (KeyError ''underlying_price'')
        else if \<not> (float_column df ''strike'' \<and> float_column df ''underlying_price'')
        then Inl TypeError
        else Inr (set_column ''moneyness''
               (\<lambda>r. Num (flog (fdiv (num_of (r ''strike'')) (num_of (r ''underlying_price'')))))
               df)
      else Inr df)"

definition between :: "fval \<Rightarrow> fval \<Rightarrow> fval \<Rightarrow> bool" where
  \<comment> \<open>\<open>x.between(left, right, inclusive="both")\<close>, that is \<open>(x >= left) & (x <= right)\<close>\<close>
  "between x left right \<longleftrightarrow> fge x left \<and> fle x right"

definition flag_iv_outliers :: "frame \<Rightarrow> QCLimits \<Rightarrow> error + frame" where
  "flag_iv_outliers df limits =
     (if ''iv'' \<in> set (columns df) then
        if \<not> float_column df ''iv'' then Inl TypeError
        else Inr (set_column ''iv_flag_outlier''
               (\<lambda>r. Bool (\<not> between (num_of (r ''iv'')) (iv_min limits) (iv_max limits)))
               df)
      else Inr df)"

definition ONLY_AND_RENAMED :: "(string \<times> string) list" where
  "ONLY_AND_RENAMED =
     [(''slot_time_utc'', ''timestamp''), (''underlying'', ''underlying''),
      (''instrument_name'', ''instrument_name''), (''expiry_utc'', ''expiry''),
      (''strike'', ''strike''), (''option_type'', ''option_type''), (''bid'', ''bid''),
      (''ask'', ''ask''), (''mid'', ''mid''), (''iv'', ''iv''), (''delta'', ''delta''),
      (''gamma'', ''gamma''), (''vega'', ''vega''), (''theta'', ''theta''), (''rho'', ''rho''),
      (''F'', ''F''), (''S'', ''S''), (''spread_rel'', ''spread''), (''moneyness'', ''moneyness''),
      (''iv_flag_outlier'', ''iv_flag_outlier'')]"

definition copy_column :: "string \<Rightarrow> frame \<Rightarrow> string \<Rightarrow> frame \<Rightarrow> frame" where
  \<comment> \<open>\<open>out[v] = df[k]\<close> for two frames with the same index\<close>
  "copy_column v df k out =
     out\<lparr>columns := (if v \<in> set (columns out) then columns out else columns out @ [v]),
         records := map2 (\<lambda>r_out r. r_out(v := r k)) (records out) (records df)\<rparr>"

fun rename_loop :: "(string \<times> string) list \<Rightarrow> frame \<Rightarrow> frame \<Rightarrow> error + frame" where
  "rename_loop [] df out = Inr out"
| "rename_loop ((k, v) # rest) df out =
     (if k \<notin> set (columns df)
      then Inl (ValueError (''Column '' @ k @ '' not found in dataframe''))
      else rename_loop rest df (copy_column v df k out))"

definition filter_rename_columns :: "frame \<Rightarrow> error + frame" where
  "filter_rename_columns df =
     rename_loop ONLY_AND_RENAMED df
       \<lparr>columns = map snd ONLY_AND_RENAMED, records = map (\<lambda>r. (\<lambda>c. Num NaN)) (records df)\<rparr>"

text \<open>Reading results and writing examples.\<close>

definition column_of :: "error + frame \<Rightarrow> string \<Rightarrow> error + cell list" where
  \<comment> \<open>the cells of one column of a result, top to bottom\<close>
  "column_of res c = (case res of Inl e \<Rightarrow> Inl e | Inr df \<Rightarrow> Inr (map (\<lambda>r. r c) (records df)))"

definition row_of :: "(string \<times> cell) list \<Rightarrow> row" where
  "row_of kvs = (\<lambda>c. case map_of kvs c of Some v \<Rightarrow> v | None \<Rightarrow> Null)"

definition frame_of :: "string list \<Rightarrow> cell list list \<Rightarrow> frame" where
  \<comment> \<open>a frame from its column names and its rows, each row the cells in column order\<close>
  "frame_of cs rs = \<lparr>columns = cs, records = map (\<lambda>vs. row_of (zip cs vs)) rs\<rparr>"

definition spread_example :: frame where
  "spread_example =
     frame_of [''bid'', ''ask'', ''mid'']
       [[Num (Fin 10), Num (Fin 12), Num (Fin 11)],
        [Num (Fin 10), Num (Fin 12), Num NaN],
        [Num (Fin 2), Num (Fin 2), Num (Fin 0)]]"

definition zero_mid_example :: frame where
  "zero_mid_example = frame_of [''bid'', ''ask'', ''mid''] [[Num (Fin 1), Num (Fin 3), Num (Fin 0)]]"

definition moneyness_example :: frame where
  "moneyness_example =
     frame_of [''strike'', ''index_price'', ''underlying_price'']
       [[Num (Fin 65000), Num (Fin 64000), Num (Fin 65000)],
        [Num NaN, Num (Fin 64000), Num (Fin 65000)],
        [Num (Fin (- 5)), Num (Fin 64000), Num (Fin 65000)]]"

definition non_positive_example :: frame where
  "non_positive_example =
     frame_of [''strike'', ''index_price'', ''underlying_price'']
       [[Num (Fin 0), Num (Fin 100), Num (Fin 100)],
        [Num (Fin (- 2)), Num (Fin 100), Num (Fin (- 1))],
        [Num (Fin 50), Num (Fin 100), Num (Fin 0)]]"

definition iv_example :: frame where
  "iv_example = frame_of [''iv''] [[Num (Fin 0.005)], [Num (Fin 1.0)], [Num NaN]]"

definition bid_ask_example :: frame where
  "bid_ask_example =
     frame_of [''instrument_name'', ''bid'', ''ask'']
       [[Str ''A'', Num (Fin 10), Num (Fin 12)],
        [Str ''B'', Num (Fin 12), Num (Fin 10)],
        [Str ''C'', Num (Fin (- 1)), Num (Fin 5)],
        [Str ''D'', Num (Fin 0), Num (Fin 0)],
        [Str ''E'', Num NaN, Num (Fin 5)],
        [Str ''F'', Num (Fin 0), Num (Fin 3)]]"

definition canonical_example :: frame where
  "canonical_example =
     frame_of
       [''kind'', ''slot_time_utc'', ''underlying'', ''instrument_name'', ''expiry_utc'', ''strike'',
        ''option_type'', ''bid'', ''ask'', ''mid'', ''iv'', ''delta'', ''gamma'', ''vega'', ''theta'',
        ''rho'', ''F'', ''S'', ''spread_rel'', ''moneyness'', ''iv_flag_outlier'']
       [[Str ''option'', Time (mk_datetime 739550 12 30 0 0), Str ''BTC'',
         Str ''BTC-27OCT25-65000-C'', Time (mk_datetime 739550 8 0 0 0), Num (Fin 65000),
         Str ''C'', Num (Fin 10), Num (Fin 12), Num (Fin 11), Num (Fin 0.55), Num (Fin 0.5),
         Num (Fin 0.001), Num (Fin 20), Num (Fin (- 30)), Num (Fin 3), Num (Fin 64900),
         Num (Fin 64800), Num (Fin (2 / 11)), Num (Fin 0.002), Bool False]]"

section \<open>Normalisation: \<open>coalesce_columns\<close> and \<open>standardize\<close> (normalize.py)\<close>

text \<open>
  What the functions take from Python and pandas is a parameter of the model:
  \<^item> \<open>to_datetime_ms c\<close> is \<open>int(pd.to_datetime(c, utc=True).value // 10**6)\<close> for a cell
    that is no number, and may raise;
  \<^item> \<open>to_numeric_obj c\<close> is what \<open>pd.to_numeric(errors="coerce")\<close> makes of a cell
    that is neither a float nor \<open>None\<close> (a string that is no number gives NaN);
  \<^item> \<open>str_of c\<close> is \<open>str(c)\<close> for a cell that is neither a string nor a truth value.
\<close>

record pylib =
  to_datetime_ms :: "cell \<Rightarrow> error + int"
  to_numeric_obj :: "cell \<Rightarrow> fval"
  str_of :: "cell \<Rightarrow> string"

definition isna :: "cell \<Rightarrow> bool" where
  \<comment> \<open>\<open>pd.isna\<close>\<close>
  "isna c \<longleftrightarrow> c = Null \<or> c = Num NaN"

definition truncate :: "real \<Rightarrow> int" where
  \<comment> \<open>\<open>int(x)\<close> rounds towards zero\<close>
  "truncate x = (if 0 \<le> x then \<lfloor>x\<rfloor> else \<lceil>x\<rceil>)"

definition to_utc_ms :: "pylib \<Rightarrow> cell \<Rightarrow> error + int" where
  "to_utc_ms lib ts =
     (case ts of
        Null \<Rightarrow> Inl (ValueError ''timestamp is None/NaN'')
      | Num NaN \<Rightarrow> Inl (ValueError ''timestamp is None/NaN'')
      | Num (Fin x) \<Rightarrow> Inr (truncate (if x > 10 ^ 12 then x else x * 1000))
      | Num PInf \<Rightarrow> Inl OverflowError
      | Num NInf \<Rightarrow> Inl OverflowError
      | c \<Rightarrow> to_datetime_ms lib c)"

definition ALIASES :: "(string \<times> string list) list" where
  "ALIASES =
     [(''slot_time_utc'', [''slot_time_utc'']),
      (''timestamp'', [''timestamp_utc'']),
      (''instrument_name'', [''instrument_name'', ''symbol'', ''inst'']),
      (''bid'', [''best_bid_price'', ''bid_price'', ''bid'']),
      (''ask'', [''best_ask_price'', ''ask_price'', ''ask'']),
      (''mark_price'', [''mark_price'', ''mark'', ''last_price'']),
      (''iv'', [''mark_iv'', ''iv'', ''implied_volatility'']),
      (''delta'', [''delta'']),
      (''gamma'', [''gamma'']),
      (''vega'', [''vega'']),
      (''theta'', [''theta'']),
      (''F'', [''underlying_price'']),
      (''S'', [''index_price'']),
      (''volume'', [''volume'', ''volume_24h'']),
      (''open_interest'', [''open_interest'', ''oi'']),
      (''maturity'', [''maturity'', ''expiry_utc'', ''expiration'', ''expiration_date'',
                      ''expiration_timestamp'']),
      (''strike'', [''strike'', ''k'', ''strike_price'']),
      (''option_type'', [''option_type'', ''is_call'', ''call_put'', ''right'']),
      (''kind'', [''kind'', ''instrument_type'', ''type''])]"

definition NUMERIC_TARGETS :: "string list" where
  \<comment> \<open>the keys of the dictionary; every one of them is cast to \<open>float\<close>\<close>
  "NUMERIC_TARGETS =
     [''bid'', ''ask'', ''mark_price'', ''iv'', ''delta'', ''gamma'', ''vega'', ''theta'',
      ''underlying_price'', ''strike'', ''volume'', ''open_interest'', ''S'', ''F'']"

definition coalesce_alias :: "frame \<Rightarrow> string \<times> string list \<Rightarrow> frame" where
  \<comment> \<open>one round of the loop over \<open>ALIASES.items()\<close>\<close>
  "coalesce_alias out tc =
     (case tc of (target, candidates) \<Rightarrow>
        if target \<in> set (columns out) then out
        else (case find (\<lambda>c. c \<in> set (columns out)) candidates of
                Some c \<Rightarrow> set_column target (\<lambda>r. r c) out
              | None \<Rightarrow> out))"

fun map_raise :: "('a \<Rightarrow> error + 'b) \<Rightarrow> 'a list \<Rightarrow> error + 'b list" where
  \<comment> \<open>\<open>map\<close> with a function that may raise: the first exception ends it\<close>
  "map_raise f [] = Inr []"
| "map_raise f (x # xs) =
     (case f x of
        Inl e \<Rightarrow> Inl e
      | Inr y \<Rightarrow> (case map_raise f xs of Inl e \<Rightarrow> Inl e | Inr ys \<Rightarrow> Inr (y # ys)))"

definition timestamp_to_ms :: "pylib \<Rightarrow> frame \<Rightarrow> error + frame" where
  \<comment> \<open>\<open>out["timestamp"] = out["timestamp"].map(to_utc_ms)\<close>\<close>
  "timestamp_to_ms lib out =
     (if ''timestamp'' \<in> set (columns out) then
        (case map_raise
                (\<lambda>r. case to_utc_ms lib (r ''timestamp'') of
                        Inl e \<Rightarrow> Inl e
                      | Inr ms \<Rightarrow> Inr (r(''timestamp'' := Num (Fin (real_of_int ms)))))
                (records out) of
           Inl e \<Rightarrow> Inl e
         | Inr rs \<Rightarrow> Inr (out\<lparr>records := rs\<rparr>))
      else Inr out)"

definition py_str :: "pylib \<Rightarrow> cell \<Rightarrow> string" where
  \<comment> \<open>\<open>str(x)\<close>\<close>
  "py_str lib c =
     (case c of
        Str s \<Rightarrow> s
      | Bool b \<Rightarrow> (if b then ''True'' else ''False'')
      | Null \<Rightarrow> ''None''
      | other \<Rightarrow> str_of lib other)"

definition is_space :: "char \<Rightarrow> bool" where
  "is_space c \<longleftrightarrow> c \<in> set [CHR '' '', CHR 0x09, CHR 0x0A, CHR 0x0B, CHR 0x0C, CHR 0x0D]"

definition strip :: "string \<Rightarrow> string" where
  \<comment> \<open>\<open>s.strip()\<close>\<close>
  "strip s = rev (dropWhile is_space (rev (dropWhile is_space s)))"

definition norm_opt :: "pylib \<Rightarrow> cell \<Rightarrow> cell" where
  \<comment> \<open>the local function \<open>_norm_opt\<close>\<close>
  "norm_opt lib x =
     (if isna x then Null
      else
        let s = strip (upper (py_str lib x))
        in if s \<in> set [''C'', ''CALL'', ''1'', ''TRUE''] then Str ''C''
           else if s \<in> set [''P'', ''PUT'', ''0'', ''FALSE''] then Str ''P''
           else Null)"

definition to_numeric :: "pylib \<Rightarrow> cell \<Rightarrow> fval" where
  \<comment> \<open>\<open>pd.to_numeric(..., errors="coerce")\<close>, cell by cell\<close>
  "to_numeric lib c =
     (case c of
        Num x \<Rightarrow> x
      | Null \<Rightarrow> NaN
      | other \<Rightarrow> to_numeric_obj lib other)"

definition numeric_cast :: "pylib \<Rightarrow> frame \<Rightarrow> string \<Rightarrow> frame" where
  \<comment> \<open>one round of the loop over \<open>NUMERIC_TARGETS.items()\<close>\<close>
  "numeric_cast lib out col =
     (if col \<in> set (columns out) then
        let out1 = set_column col (\<lambda>r. Num (to_numeric lib (r col))) out
        in if col = ''iv''
           then set_column col (\<lambda>r. Num (fdiv (num_of (r col)) (Fin 100))) out1
           else out1
      else out)"

definition coalesce_columns :: "pylib \<Rightarrow> frame \<Rightarrow> error + frame" where
  "coalesce_columns lib df =
     (let out = foldl coalesce_alias df ALIASES
      in case timestamp_to_ms lib out of
           Inl e \<Rightarrow> Inl e
         | Inr out \<Rightarrow>
             let out = (if ''option_type'' \<in> set (columns out)
                        then set_column ''option_type'' (\<lambda>r. norm_opt lib (r ''option_type'')) out
                        else out)
             in Inr (foldl (numeric_cast lib) out NUMERIC_TARGETS))"

text \<open>
  \<open>add_parsed_columns\<close>: the five columns are filled, where they are null, from the parsed
  instrument name; a column that does not exist starts as all \<open>None\<close>.
\<close>

definition fillna :: "cell \<Rightarrow> cell \<Rightarrow> cell" where
  "fillna c v = (if isna c then v else c)"

definition opt_cell :: "('a \<Rightarrow> cell) \<Rightarrow> 'a option \<Rightarrow> cell" where
  "opt_cell f v = (case v of None \<Rightarrow> Null | Some x \<Rightarrow> f x)"

definition get_or_none :: "frame \<Rightarrow> string \<Rightarrow> row \<Rightarrow> cell" where
  \<comment> \<open>a cell of \<open>out.get(c, pd.Series([None] * len(out)))\<close>\<close>
  "get_or_none out c r = (if c \<in> set (columns out) then r c else Null)"

definition fill_parsed :: "frame \<Rightarrow> row \<Rightarrow> ParsedInstrument \<Rightarrow> row" where
  "fill_parsed out r p =
     r(''kind'' := fillna (get_or_none out ''kind'' r) (Str (kind p)),
       ''maturity'' := fillna (get_or_none out ''maturity'' r) (Str (maturity p)),
       ''option_type'' := fillna (get_or_none out ''option_type'' r) (opt_cell Str (option_type p)),
       ''strike'' := fillna (get_or_none out ''strike'' r) (opt_cell (\<lambda>k. Num (Fin k)) (strike p)),
       ''underlying'' := fillna (get_or_none out ''underlying'' r) (Str (underlying p)))"

definition add_columns :: "string list \<Rightarrow> string list \<Rightarrow> string list" where
  \<comment> \<open>the column names after assigning to each of \<open>cs\<close> in turn\<close>
  "add_columns cols cs = foldl (\<lambda>acc c. if c \<in> set acc then acc else acc @ [c]) cols cs"

definition add_parsed_columns :: "pylib \<Rightarrow> frame \<Rightarrow> string \<Rightarrow> error + frame" where
  "add_parsed_columns lib out instrument_col =
     (if instrument_col \<notin> set (columns out) then Inr out
      else
        case map_raise
               (\<lambda>r. case parse_instrument_name (py_str lib (r instrument_col)) of
                       Inl e \<Rightarrow> Inl e
                     | Inr p \<Rightarrow> Inr (fill_parsed out r p))
               (records out) of
          Inl e \<Rightarrow> Inl e
        | Inr rs \<Rightarrow>
            Inr \<lparr>columns = add_columns (columns out)
                              [''kind'', ''maturity'', ''option_type'', ''strike'', ''underlying''],
                 records = rs\<rparr>)"

text \<open>
  Sorting and deduplication. Nulls sort last; cells of one kind are compared by value,
  strings by code point; the order between cells of different kinds, on which pandas
  raises, is the model's own. The sort is stable.
\<close>

fun str_le :: "string \<Rightarrow> string \<Rightarrow> bool" where
  "str_le [] t = True"
| "str_le (a # s) [] = False"
| "str_le (a # s) (b # t) = (if a = b then str_le s t else (of_char a :: nat) < of_char b)"

fun cell_rank :: "cell \<Rightarrow> nat" where
  "cell_rank (Bool b) = 0"
| "cell_rank (Num x) = (if x = NaN then 4 else 1)"
| "cell_rank (Time t) = 2"
| "cell_rank (Str s) = 3"
| "cell_rank Null = 4"

fun cell_le :: "cell \<Rightarrow> cell \<Rightarrow> bool" where
  "cell_le (Num x) (Num y) = (y = NaN \<or> fle x y)"
| "cell_le (Str s) (Str t) = str_le s t"
| "cell_le (Time s) (Time t) = (s \<le> t)"
| "cell_le (Bool a) (Bool b) = (a \<le> b)"
| "cell_le a b = (cell_rank a \<le> cell_rank b)"

fun key_le :: "string list \<Rightarrow> row \<Rightarrow> row \<Rightarrow> bool" where
  \<comment> \<open>lexicographic in the sort columns\<close>
  "key_le [] r1 r2 = True"
| "key_le (c # cs) r1 r2 =
     (if r1 c = r2 c \<or> (isna (r1 c) \<and> isna (r2 c)) then key_le cs r1 r2
      else cell_le (r1 c) (r2 c))"

fun insert_by :: "('a \<Rightarrow> 'a \<Rightarrow> bool) \<Rightarrow> 'a \<Rightarrow> 'a list \<Rightarrow> 'a list" where
  "insert_by le x [] = [x]"
| "insert_by le x (y # ys) = (if le x y then x # y # ys else y # insert_by le x ys)"

definition sort_by :: "('a \<Rightarrow> 'a \<Rightarrow> bool) \<Rightarrow> 'a list \<Rightarrow> 'a list" where
  \<comment> \<open>a stable sort for the order \<open>le\<close>\<close>
  "sort_by le xs = foldr (insert_by le) xs []"

definition sort_values :: "string list \<Rightarrow> row list \<Rightarrow> row list" where
  "sort_values cs rs = sort_by (key_le cs) rs"

definition same_key :: "string list \<Rightarrow> row \<Rightarrow> row \<Rightarrow> bool" where
  "same_key cs r1 r2 \<longleftrightarrow> list_all (\<lambda>c. r1 c = r2 c \<or> (isna (r1 c) \<and> isna (r2 c))) cs"

fun drop_duplicates_last :: "string list \<Rightarrow> row list \<Rightarrow> row list" where
  \<comment> \<open>\<open>drop_duplicates(cs, keep="last")\<close>\<close>
  "drop_duplicates_last cs [] = []"
| "drop_duplicates_last cs (r # rs) =
     (if list_ex (same_key cs r) rs then drop_duplicates_last cs rs
      else r # drop_duplicates_last cs rs)"

definition standardize :: "pylib \<Rightarrow> frame \<Rightarrow> error + frame" where
  "standardize lib df =
     (case coalesce_columns lib df of
        Inl e \<Rightarrow> Inl e
      | Inr out \<Rightarrow>
          (case add_parsed_columns lib out ''instrument_name'' of
             Inl e \<Rightarrow> Inl e
           | Inr out \<Rightarrow>
               let sort_cols = filter (\<lambda>c. c \<in> set (columns out)) [''instrument_name'', ''slot_time_utc'']
               in if sort_cols \<noteq> []
                  then Inr (out\<lparr>records := drop_duplicates_last sort_cols
                                             (sort_values sort_cols (records out))\<rparr>)
                  else Inr out))"

definition iv_source :: "frame \<Rightarrow> string" where
  \<comment> \<open>the input column that \<open>iv\<close> is read from\<close>
  "iv_source df =
     (if ''iv'' \<in> set (columns df) then ''iv''
      else if ''mark_iv'' \<in> set (columns df) then ''mark_iv''
      else ''implied_volatility'')"

definition rewritten_columns :: "string set" where
  \<comment> \<open>the columns whose cells \<open>standardize\<close> may change when they exist\<close>
  "rewritten_columns =
     {''timestamp'', ''option_type'', ''kind'', ''maturity'', ''strike'', ''underlying''}
       \<union> set NUMERIC_TARGETS"

definition standardize_twice :: "pylib \<Rightarrow> frame \<Rightarrow> error + frame" where
  "standardize_twice lib df =
     (case standardize lib df of Inl e \<Rightarrow> Inl e | Inr s \<Rightarrow> standardize lib s)"

text \<open>
  Examples: library functions that read times only from time cells and no number from a
  string; a raw snapshot of three rows, with an implied volatility in percent, one that
  is a fraction already, and a later duplicate of the first row; and a frame whose \<open>iv\<close>
  is standardised twice.
\<close>

definition example_lib :: pylib where
  "example_lib =
     \<lparr>to_datetime_ms =
        (\<lambda>c. case c of
                Time t \<Rightarrow> Inr ((t - mk_datetime 719162 0 0 0 0) div 1000)
              | other \<Rightarrow> Inl (ValueError ''unknown datetime string format'')),
      to_numeric_obj = (\<lambda>c. NaN),
      str_of = (\<lambda>c. ''nan'')\<rparr>"

definition raw_example :: frame where
  "raw_example =
     frame_of [''slot_time_utc'', ''instrument_name'', ''mark_iv'', ''best_bid_price'']
       [[Time (mk_datetime 739550 12 30 0 0), Str ''BTC-27OCT25-65000-C'', Num (Fin 55), Num (Fin 10)],
        [Time (mk_datetime 739550 12 30 0 0), Str ''BTC-27OCT25-70000-P'', Num (Fin 0.5), Num (Fin 7)],
        [Time (mk_datetime 739550 12 30 0 0), Str ''BTC-27OCT25-65000-C'', Num (Fin 60), Num (Fin 11)]]"

definition percent_example :: frame where
  "percent_example =
     frame_of [''instrument_name'', ''iv'']
       [[Str ''BTC-27OCT25-70000-P'', Num (Fin 55)],
        [Str ''BTC-27OCT25-65000-C'', Num (Fin 0.5)]]"

section \<open>Aggregation: \<open>build_smiles\<close> (deribit\_rest\_30m.py)\<close>











section \<open>Properties of the scheduler\<close>

lemma base_is_minutes:
  "replace_second_microsecond_0 t = (t div us_per_minute) * us_per_minute"
  unfolding replace_second_microsecond_0_def
  by (simp add: algebra_simps minus_mod_eq_mult_div)

lemma start_less_next_minute:
  "t < (t div us_per_minute + 1) * us_per_minute"
proof -
  have "t mod us_per_minute < us_per_minute"
    by (simp add: us_per_minute_def)
  moreover have "(t div us_per_minute + 1) * us_per_minute
      = t div us_per_minute * us_per_minute + us_per_minute"
    by (simp add: distrib_right)
  ultimately show ?thesis
    using div_mult_mod_eq [of t us_per_minute] by linarith
qed

lemma dt_minute_of_minutes: "dt_minute (q * us_per_minute) = q mod 60"
  by (simp add: dt_minute_def us_per_minute_def)

lemma next_multiple_greater:
  fixes m step :: int
  assumes "0 < step"
  shows "m < (m div step + 1) * step"
proof -
  have "m mod step < step" using assms by simp
  moreover have "(m div step + 1) * step = m div step * step + step"
    by (simp add: distrib_right)
  ultimately show ?thesis
    using div_mult_mod_eq [of m step] by linarith
qed

lemma align_next_slot_value:
  assumes "0 < step"
  shows "align_next_slot start step =
     Inr ((start div us_per_minute - (start div us_per_minute) mod 60
           + ((start div us_per_minute) mod 60 div step + 1) * step) * us_per_minute)"
proof -
  define q where "q = start div us_per_minute"
  define mn where "mn = q mod 60"
  define k where "k = (mn div step + 1) * step"
  have base: "replace_second_microsecond_0 start = q * us_per_minute"
    by (simp add: base_is_minutes q_def)
  have mnb: "dt_minute (q * us_per_minute) = mn"
    by (simp add: dt_minute_of_minutes mn_def)
  have target: "add_minutes (replace_minute_0 (q * us_per_minute)) k = (q - mn + k) * us_per_minute"
    by (simp add: add_minutes_def replace_minute_0_def mnb left_diff_distrib distrib_right)
  have "mn < k" unfolding k_def by (rule next_multiple_greater [OF assms])
  then have "q + 1 \<le> q - mn + k" by simp
  then have "(q + 1) * us_per_minute \<le> (q - mn + k) * us_per_minute"
    by (simp add: us_per_minute_def)
  moreover have "start < (q + 1) * us_per_minute"
    unfolding q_def by (rule start_less_next_minute)
  ultimately have gt: "\<not> (q - mn + k) * us_per_minute \<le> start" by linarith
  have "align_next_slot start step = Inr ((q - mn + k) * us_per_minute)"
    unfolding align_next_slot_def Let_def base mnb k_def [symmetric]
    using assms gt by (simp add: target)
  then show ?thesis by (simp add: q_def mn_def k_def)
qed

lemma grid_minute:
  fixes step :: int
  assumes "0 < step" and "step dvd 60 \<or> 60 dvd step" and "0 \<le> mn" and "mn < 60"
  shows "step dvd (((mn div step + 1) * step) mod 60)"
proof (cases "step dvd 60")
  case True
  then show ?thesis by (simp add: dvd_mod)
next
  case False
  with assms have "60 dvd step" by simp
  then have "60 \<le> step" using assms(1) by (simp add: zdvd_imp_le)
  then have "mn div step = 0" using assms by (simp add: div_pos_pos_trivial)
  then show ?thesis using \<open>60 dvd step\<close> by (simp add: mod_eq_0_iff_dvd)
qed

text \<open>
  Claim C2, as amended. For every start time and every positive interval,
  \<open>align_next_slot\<close> returns a time strictly after the start. The minute of the hour of
  that time is a multiple of the interval when the interval divides 60 (or is a multiple
  of 60); the hourly grid is not met otherwise, as the example after the theorem shows.
\<close>

theorem align_next_slot_correct:
  assumes "0 < step"
  shows "\<exists>t. align_next_slot start step = Inr t \<and> start < t \<and>
           (step dvd 60 \<or> 60 dvd step \<longrightarrow> dt_minute t mod step = 0)"
proof -
  define q where "q = start div us_per_minute"
  define mn where "mn = q mod 60"
  define k where "k = (mn div step + 1) * step"
  define t where "t = (q - mn + k) * us_per_minute"
  have val: "align_next_slot start step = Inr t"
    unfolding t_def k_def mn_def q_def by (rule align_next_slot_value [OF assms])
  have "mn < k" unfolding k_def by (rule next_multiple_greater [OF assms])
  then have "q + 1 \<le> q - mn + k" by simp
  moreover have "(0::int) \<le> us_per_minute" by (simp add: us_per_minute_def)
  ultimately have "(q + 1) * us_per_minute \<le> t"
    unfolding t_def by (rule mult_right_mono)
  moreover have "start < (q + 1) * us_per_minute"
    unfolding q_def by (rule start_less_next_minute)
  ultimately have gt: "start < t" by linarith
  have "q - mn = 60 * (q div 60)"
    unfolding mn_def by (rule minus_mod_eq_mult_div)
  then have "(q - mn + k) mod 60 = k mod 60"
    by simp
  then have mint: "dt_minute t = k mod 60"
    by (simp add: t_def dt_minute_of_minutes)
  have grid: "dt_minute t mod step = 0" if "step dvd 60 \<or> 60 dvd step"
  proof -
    have "0 \<le> mn" "mn < 60" by (simp_all add: mn_def)
    then have "step dvd (k mod 60)"
      unfolding k_def by (rule grid_minute [OF assms that])
    then show ?thesis by (simp add: mint mod_eq_0_iff_dvd)
  qed
  show ?thesis
  proof (intro exI conjI impI)
    show "align_next_slot start step = Inr t" by (rule val)
    show "start < t" by (rule gt)
    show "dt_minute t mod step = 0" if "step dvd 60 \<or> 60 dvd step"
      using that by (rule grid)
  qed
qed

theorem align_next_slot_correct_witness:
  "(0::int) < 30 \<and>
   align_next_slot (mk_datetime 739550 12 45 10 500) 30 = Inr (mk_datetime 739550 13 0 0 0) \<and>
   mk_datetime 739550 12 45 10 500 < mk_datetime 739550 13 0 0 0 \<and>
   (30::int) dvd 60 \<and>
   dt_minute (mk_datetime 739550 13 0 0 0) mod 30 = 0"
  using align_next_slot_correct [of 30 "mk_datetime 739550 12 45 10 500"]
  by (simp add: align_next_slot_def mk_datetime_def dt_minute_def us_per_minute_def
      replace_second_microsecond_0_def replace_minute_0_def add_minutes_def Let_def)

text \<open>
  Claim C2 as stated fails for an interval that does not divide 60: with an interval of 7
  minutes, 12:58 is sent to 13:03, whose minute of the hour is not a multiple of 7.
\<close>

theorem align_next_slot_off_grid:
  "(0::int) < 7 \<and>
   align_next_slot (mk_datetime 739550 12 58 0 0) 7 = Inr (mk_datetime 739550 13 3 0 0) \<and>
   dt_minute (mk_datetime 739550 13 3 0 0) mod 7 = 3"
  by (simp add: align_next_slot_def mk_datetime_def dt_minute_def us_per_minute_def
      replace_second_microsecond_0_def replace_minute_0_def add_minutes_def Let_def)

section \<open>Properties of the fetch batch\<close>

lemma worker_loop_appends:
  "worker_loop cfg body rc (rows, ws) =
     (rows @ fst (worker_loop cfg body rc ([], [])), ws @ snd (worker_loop cfg body rc ([], [])))"
proof (induction "nat (max_retries cfg - rc)" arbitrary: rc rows ws)
  case 0
  then have "\<not> rc < max_retries cfg" by simp
  then show ?case by (simp add: worker_loop.simps)
next
  case (Suc k)
  then have lt: "rc < max_retries cfg" and k: "k = nat (max_retries cfg - (rc + 1))"
    by simp_all
  show ?case
  proof (cases "body (nat rc)")
    case (Inr row)
    with lt show ?thesis by (simp add: worker_loop.simps)
  next
    case (Inl e)
    have a: "worker_loop cfg body (rc + 1) (rows, ws @ [e]) =
        (rows @ fst (worker_loop cfg body (rc + 1) ([], [])),
         (ws @ [e]) @ snd (worker_loop cfg body (rc + 1) ([], [])))"
      by (rule Suc.hyps(1) [OF k])
    have b: "worker_loop cfg body (rc + 1) ([], [] @ [e]) =
        ([] @ fst (worker_loop cfg body (rc + 1) ([], [])),
         ([] @ [e]) @ snd (worker_loop cfg body (rc + 1) ([], [])))"
      by (rule Suc.hyps(1) [OF k])
    show ?thesis
      using lt Inl a b
      by (simp add: worker_loop.simps [of cfg body rc])
  qed
qed

lemma worker_loop_all_fail:
  assumes "\<And>j. rc \<le> j \<Longrightarrow> j < max_retries cfg \<Longrightarrow> isl (body (nat j))"
  shows "fst (worker_loop cfg body rc (rows, ws)) = rows"
  using assms
proof (induction cfg body rc "(rows, ws)" arbitrary: rows ws rule: worker_loop.induct)
  case (1 cfg body retry_count rows warnings)
  show ?case
  proof (cases "retry_count < max_retries cfg")
    case False
    then show ?thesis by (simp add: worker_loop.simps)
  next
    case True
    then have "isl (body (nat retry_count))" using "1.prems" by simp
    then obtain e where e: "body (nat retry_count) = Inl e" by (cases "body (nat retry_count)") auto
    have "fst (worker_loop cfg body (retry_count + 1) (rows, warnings @ [e])) = rows"
      using "1.hyps" [OF True e] "1.prems" by simp
    with True e show ?thesis
      by (simp add: worker_loop.simps [of cfg body retry_count])
  qed
qed

lemma worker_loop_succeeds_at:
  assumes "rc \<le> n" and "n < max_retries cfg" and "body (nat n) = Inr row"
    and "\<And>j. rc \<le> j \<Longrightarrow> j < n \<Longrightarrow> isl (body (nat j))"
  shows "fst (worker_loop cfg body rc (rows, ws)) = rows @ [row]"
  using assms
proof (induction cfg body rc "(rows, ws)" arbitrary: rows ws rule: worker_loop.induct)
  case (1 cfg body retry_count rows warnings)
  have lt: "retry_count < max_retries cfg" using "1.prems" by simp
  show ?case
  proof (cases "retry_count = n")
    case True
    with lt "1.prems"(3) show ?thesis
      by (simp add: worker_loop.simps [of cfg body n])
  next
    case False
    then have less: "retry_count < n" using "1.prems"(1) by simp
    then have "isl (body (nat retry_count))" using "1.prems"(4) by simp
    then obtain e where e: "body (nat retry_count) = Inl e" by (cases "body (nat retry_count)") auto
    have "fst (worker_loop cfg body (retry_count + 1) (rows, warnings @ [e])) = rows @ [row]"
      using "1.hyps" [OF lt e] less "1.prems" by simp
    with lt e show ?thesis
      by (simp add: worker_loop.simps [of cfg body retry_count])
  qed
qed

lemma worker_fails_then_succeeds:
  assumes "fails_then_succeeds cfg (try_body fetch mk) row"
  shows "fst (worker cfg fetch mk (rows, ws)) = rows @ [row]"
proof -
  let ?R = "max_retries cfg"
  from assms have pos: "0 < ?R"
    and fails: "\<And>n. n < nat (?R - 1) \<Longrightarrow> isl (try_body fetch mk n)"
    and ok: "try_body fetch mk (nat (?R - 1)) = Inr row"
    by (auto simp: fails_then_succeeds_def list_all_iff)
  have "fst (worker_loop cfg (try_body fetch mk) 0 (rows, ws)) = rows @ [row]"
  proof (rule worker_loop_succeeds_at [where n = "?R - 1"])
    show "0 \<le> ?R - 1" using pos by simp
    show "?R - 1 < ?R" by simp
    show "try_body fetch mk (nat (?R - 1)) = Inr row" by (rule ok)
    show "isl (try_body fetch mk (nat j))" if "0 \<le> j" "j < ?R - 1" for j
      using that by (intro fails) simp
  qed
  then show ?thesis by (simp add: worker_def)
qed

lemma worker_always_fails:
  assumes "always_fails cfg (try_body fetch mk)"
  shows "fst (worker cfg fetch mk (rows, ws)) = rows"
proof -
  from assms have fails: "\<And>n. n < nat (max_retries cfg) \<Longrightarrow> isl (try_body fetch mk n)"
    by (auto simp: always_fails_def list_all_iff)
  have "fst (worker_loop cfg (try_body fetch mk) 0 (rows, ws)) = rows"
  proof (rule worker_loop_all_fail)
    show "isl (try_body fetch mk (nat j))" if "0 \<le> j" "j < max_retries cfg" for j
      using that by (intro fails) simp
  qed
  then show ?thesis by (simp add: worker_def)
qed

lemma worker_appends:
  "fst (worker cfg fetch mk (rows, ws)) = rows @ fst (worker cfg fetch mk ([], []))"
  unfolding worker_def
  by (subst worker_loop_appends) simp

lemma run_workers_rows:
  "fst (run_workers cfg fetch mk i insts st) =
     fst st @ concat (map (\<lambda>j. fst (worker cfg (fetch (i + j)) (mk (fst (insts ! j)) (snd (insts ! j))) ([], [])))
                       [0..<length insts])"
proof (induction insts arbitrary: i st)
  case Nil
  then show ?case by simp
next
  case (Cons p rest)
  obtain cur inst where p: "p = (cur, inst)" by (cases p)
  obtain rows ws where st: "st = (rows, ws)" by (cases st)
  let ?f = "\<lambda>j. fst (worker cfg (fetch (i + j))
                 (mk (fst ((p # rest) ! j)) (snd ((p # rest) ! j))) ([], []))"
  have split: "[0..<length (p # rest)] = 0 # map Suc [0..<length rest]"
    by (simp add: upt_conv_Cons map_Suc_upt del: upt_Suc)
  have rhs: "concat (map ?f [0..<length (p # rest)]) =
      fst (worker cfg (fetch i) (mk cur inst) ([], [])) @
      concat (map (\<lambda>j. fst (worker cfg (fetch (Suc i + j))
                 (mk (fst (rest ! j)) (snd (rest ! j))) ([], []))) [0..<length rest])"
    unfolding split by (simp add: o_def p)
  have "fst (run_workers cfg fetch mk i (p # rest) st) =
      fst (run_workers cfg fetch mk (Suc i) rest (worker cfg (fetch i) (mk cur inst) st))"
    by (simp add: p)
  also have "\<dots> = fst (worker cfg (fetch i) (mk cur inst) st) @
      concat (map (\<lambda>j. fst (worker cfg (fetch (Suc i + j))
                 (mk (fst (rest ! j)) (snd (rest ! j))) ([], []))) [0..<length rest])"
    by (rule Cons.IH)
  also have "fst (worker cfg (fetch i) (mk cur inst) st) =
      fst st @ fst (worker cfg (fetch i) (mk cur inst) ([], []))"
    unfolding st by (subst worker_appends) simp
  finally show ?case
    unfolding rhs by simp
qed

text \<open>
  Claim C1. With a semaphore that admits a worker (\<open>max_concurrency > 0\<close>), the batch
  returns, raising nothing, and its rows are what its instruments contribute one by one.
  An instrument whose first \<open>max_retries - 1\<close> attempts raise and whose next attempt
  yields a row contributes exactly that row; an instrument whose \<open>max_retries\<close> attempts
  all raise contributes no row.
\<close>

theorem gather_order_books_retry:
  assumes "0 < max_concurrency cfg"
  shows "\<exists>rows warnings.
      gather_order_books cfg now fetch make_row instruments = Returned (rows, warnings) \<and>
      rows = concat (map (contribution cfg now fetch make_row instruments) [0..<length instruments]) \<and>
      (\<forall>i<length instruments. \<forall>row.
         (fails_then_succeeds cfg (instrument_body now fetch make_row instruments i) row
            \<longrightarrow> contribution cfg now fetch make_row instruments i = [row]) \<and>
         (always_fails cfg (instrument_body now fetch make_row instruments i)
            \<longrightarrow> contribution cfg now fetch make_row instruments i = []))"
proof -
  let ?slot = "replace_second_microsecond_0 now"
  let ?st = "run_workers cfg fetch (make_row ?slot) 0 instruments ([], [])"
  have ret: "gather_order_books cfg now fetch make_row instruments = Returned (fst ?st, snd ?st)"
    using assms by (simp add: gather_order_books_def Let_def)
  have rows: "fst ?st =
      concat (map (contribution cfg now fetch make_row instruments) [0..<length instruments])"
    by (simp add: run_workers_rows contribution_def [abs_def])
  have one: "contribution cfg now fetch make_row instruments i = [row]"
    if "fails_then_succeeds cfg (instrument_body now fetch make_row instruments i) row" for i row
    using worker_fails_then_succeeds [OF that [unfolded instrument_body_def], of "[]" "[]"]
    by (simp add: contribution_def)
  have none: "contribution cfg now fetch make_row instruments i = []"
    if "always_fails cfg (instrument_body now fetch make_row instruments i)" for i
    using worker_always_fails [OF that [unfolded instrument_body_def], of "[]" "[]"]
    by (simp add: contribution_def)
  show ?thesis
    using ret rows one none by blast
qed

theorem gather_order_books_retry_witness:
  "0 < max_concurrency example_cfg \<and>
   gather_order_books example_cfg (mk_datetime 739550 12 30 7 0) example_fetch example_make_row
       example_batch =
     Returned ([(mk_datetime 739550 12 30 0 0, ''BTC-27OCT25-65000-C'', 42)],
               replicate 5 (RuntimeError ''timeout'')) \<and>
   fails_then_succeeds example_cfg
     (instrument_body (mk_datetime 739550 12 30 7 0) example_fetch example_make_row example_batch 0)
     (mk_datetime 739550 12 30 0 0, ''BTC-27OCT25-65000-C'', 42) \<and>
   contribution example_cfg (mk_datetime 739550 12 30 7 0) example_fetch example_make_row
       example_batch 0 = [(mk_datetime 739550 12 30 0 0, ''BTC-27OCT25-65000-C'', 42)] \<and>
   always_fails example_cfg
     (instrument_body (mk_datetime 739550 12 30 7 0) example_fetch example_make_row example_batch 1) \<and>
   contribution example_cfg (mk_datetime 739550 12 30 7 0) example_fetch example_make_row
       example_batch 1 = []"
proof -
  let ?now = "mk_datetime 739550 12 30 7 0"
  let ?row = "(mk_datetime 739550 12 30 0 0, ''BTC-27OCT25-65000-C'', 42::int)"
  have slot: "replace_second_microsecond_0 ?now = mk_datetime 739550 12 30 0 0"
    by (simp add: replace_second_microsecond_0_def us_per_minute_def mk_datetime_def)
  have pos: "0 < max_concurrency example_cfg"
    by (simp add: example_cfg_def)
  have len: "(0::nat) < length example_batch" "(1::nat) < length example_batch"
    by (simp_all add: example_batch_def)
  have f: "fails_then_succeeds example_cfg
      (instrument_body ?now example_fetch example_make_row example_batch 0) ?row"
    by (simp add: fails_then_succeeds_def instrument_body_def try_body_def example_cfg_def
        example_fetch_def example_make_row_def example_batch_def upt_conv_Cons slot)
  have a: "always_fails example_cfg
      (instrument_body ?now example_fetch example_make_row example_batch 1)"
    by (simp add: always_fails_def instrument_body_def try_body_def example_cfg_def
        example_fetch_def example_make_row_def example_batch_def upt_conv_Cons)
  have g: "gather_order_books example_cfg ?now example_fetch example_make_row example_batch =
      Returned ([?row], replicate 5 (RuntimeError ''timeout''))"
    by (simp add: gather_order_books_def worker_def worker_loop.simps try_body_def
        example_cfg_def example_batch_def example_fetch_def example_make_row_def slot
        numeral_eq_Suc)
  from gather_order_books_retry [OF pos, of ?now example_fetch example_make_row example_batch]
  have all: "\<forall>i<length example_batch. \<forall>row.
      (fails_then_succeeds example_cfg
          (instrument_body ?now example_fetch example_make_row example_batch i) row
        \<longrightarrow> contribution example_cfg ?now example_fetch example_make_row example_batch i = [row]) \<and>
      (always_fails example_cfg
          (instrument_body ?now example_fetch example_make_row example_batch i)
        \<longrightarrow> contribution example_cfg ?now example_fetch example_make_row example_batch i = [])"
    by blast
  have c0: "contribution example_cfg ?now example_fetch example_make_row example_batch 0 = [?row]"
    using all len(1) f by blast
  have c1: "contribution example_cfg ?now example_fetch example_make_row example_batch 1 = []"
    using all len(2) a by blast
  show ?thesis
    using pos g f c0 a c1 by (intro conjI)
qed

section \<open>Properties of the instrument parser\<close>

lemmas parse_eval =
  parse_instrument_name_def DERIBIT_OPT_def DERIBIT_FUT_def before_final_newline_def
  match_expiry_def match_underlying_def match_strike_def is_digit_def is_upper_def upper_char_def
  upper_def MON_MAP_def int_of_digits_def real_of_digits_def digit_value_def float_of_strike_def
  maturity_string_def format_0d_def Let_def

lemma digits_of_examples:
  "digits_of 2025 = ''2025''" "digits_of 10 = ''10''" "digits_of 27 = ''27''"
  "digits_of 12 = ''12''" "digits_of 30 = ''30''" "digits_of 2024 = ''2024''"
  by (simp_all add: digits_of.simps digit_char_def)

lemma parse_option_example:
  "parse_instrument_name ''BTC-27OCT25-65000-C'' =
     Inr \<lparr>kind = ''option'', underlying = ''BTC'', maturity = ''2025-10-27'',
          option_type = Some ''C'', strike = Some 65000\<rparr>"
  by (simp add: parse_eval digits_of_examples)

lemma parse_future_example:
  "parse_instrument_name ''BTC-27OCT25'' =
     Inr \<lparr>kind = ''future'', underlying = ''BTC'', maturity = ''2025-10-27'',
          option_type = None, strike = None\<rparr>"
  by (simp add: parse_eval digits_of_examples)

lemma parse_garbage_example:
  "parse_instrument_name ''garbage'' =
     Inr \<lparr>kind = ''unknown'', underlying = '''', maturity = '''',
          option_type = None, strike = None\<rparr>"
  by (simp add: parse_eval)

lemma parse_no_match:
  assumes "DERIBIT_OPT name = None" and "DERIBIT_FUT name = None"
  shows "parse_instrument_name name =
     Inr \<lparr>kind = ''unknown'', underlying = '''', maturity = '''',
          option_type = None, strike = None\<rparr>"
  using assms by (simp add: parse_instrument_name_def)

text \<open>
  Claim C3 says that the parser never raises. A name with three capital letters that are
  no month passes the option pattern, and the lookup in \<open>_MON_MAP\<close> raises
  \<open>KeyError\<close>.
\<close>

theorem parse_instrument_name_unknown_month:
  "parse_instrument_name ''BTC-27XYZ25-65000-C'' = Inl (KeyError ''XYZ'')"
  by (simp add: parse_eval)

lemma parse_instrument_name_two_points:
  "parse_instrument_name ''BTC-27OCT25-1.2.3-C'' = Inl (ValueError ''1.2.3'')"
  by (simp add: parse_eval digits_of_examples)

lemma parse_future_unknown_month:
  "parse_instrument_name ''BTC-27XYZ25'' = Inl (KeyError ''XYZ'')"
  by (simp add: parse_eval)

section \<open>Properties of the quality control\<close>

lemma float_column_iff: "float_column df c \<longleftrightarrow> (\<forall>r\<in>set (records df). is_float (r c))"
  by (simp add: float_column_def list_all_iff)

lemma float_column_nth:
  "float_column df c \<Longrightarrow> i < length (records df) \<Longrightarrow> is_float ((records df ! i) c)"
  by (simp add: float_column_iff)

lemma set_column_records:
  "records (set_column c f df) = map (\<lambda>r. r(c := f r)) (records df)"
  by (simp add: set_column_def)

lemma set_column_columns:
  "columns (set_column c f df) = (if c \<in> set (columns df) then columns df else columns df @ [c])"
  by (simp add: set_column_def)

lemma fle_not_flt: "fle a b \<Longrightarrow> \<not> flt b a"
  by (cases a; cases b) simp_all

lemma flt_not_fle: "flt a b \<Longrightarrow> \<not> fle b a"
  by (cases a; cases b) simp_all

lemma fle_NaN_right [simp]: "fle a NaN = False"
  by (cases a) simp_all

lemma flt_NaN_right [simp]: "flt a NaN = False"
  by (cases a) simp_all

lemma fdiv_NaN_right [simp]: "fdiv a NaN = NaN"
  by (cases a) simp_all

lemma fadd_NaN_right [simp]: "fadd a NaN = NaN"
  by (cases a) simp_all

lemma fsub_Fin [simp]: "fsub (Fin x) (Fin y) = Fin (x - y)"
  by (simp add: fsub_def)

subsection \<open>\<open>flag_iv_outliers\<close>\<close>

text \<open>
  Claim C4. On a frame with a float column \<open>iv\<close>, \<open>flag_iv_outliers\<close> gives every row
  the flag \<open>not (iv_min <= iv <= iv_max)\<close>, both bounds inclusive, and leaves every other
  cell as it was; a row whose \<open>iv\<close> is null (NaN) gets the flag true. With the limits
  0.01 and 5.0 the values 0.005, 1.0 and null are flagged true, false and true.
\<close>

theorem flag_iv_outliers_flags:
  assumes "''iv'' \<in> set (columns df)" and "float_column df ''iv''"
  shows "\<exists>out. flag_iv_outliers df limits = Inr out \<and>
      length (records out) = length (records df) \<and>
      (\<forall>i<length (records df).
         (records out ! i) ''iv_flag_outlier'' =
           Bool (\<not> (fle (iv_min limits) (num_of ((records df ! i) ''iv'')) \<and>
                    fle (num_of ((records df ! i) ''iv'')) (iv_max limits))) \<and>
         ((records df ! i) ''iv'' = Num NaN \<longrightarrow> (records out ! i) ''iv_flag_outlier'' = Bool True) \<and>
         (\<forall>c. c \<noteq> ''iv_flag_outlier'' \<longrightarrow> (records out ! i) c = (records df ! i) c)) \<and>
      column_of (flag_iv_outliers iv_example QCLimits_default) ''iv_flag_outlier'' =
        Inr [Bool True, Bool False, Bool True]"
proof -
  let ?out = "set_column ''iv_flag_outlier''
      (\<lambda>r. Bool (\<not> between (num_of (r ''iv'')) (iv_min limits) (iv_max limits))) df"
  have res: "flag_iv_outliers df limits = Inr ?out"
    using assms by (simp add: flag_iv_outliers_def)
  have len: "length (records ?out) = length (records df)"
    by (simp add: set_column_records)
  have cells: "(records ?out ! i) ''iv_flag_outlier'' =
        Bool (\<not> (fle (iv_min limits) (num_of ((records df ! i) ''iv'')) \<and>
                 fle (num_of ((records df ! i) ''iv'')) (iv_max limits))) \<and>
      ((records df ! i) ''iv'' = Num NaN \<longrightarrow> (records ?out ! i) ''iv_flag_outlier'' = Bool True) \<and>
      (\<forall>c. c \<noteq> ''iv_flag_outlier'' \<longrightarrow> (records ?out ! i) c = (records df ! i) c)"
    if "i < length (records df)" for i
    using that by (simp add: set_column_records between_def fge_def)
  have ex: "column_of (flag_iv_outliers iv_example QCLimits_default) ''iv_flag_outlier'' =
      Inr [Bool True, Bool False, Bool True]"
    by (simp add: column_of_def flag_iv_outliers_def iv_example_def frame_of_def row_of_def
        float_column_def set_column_def QCLimits_default_def between_def fge_def)
  show ?thesis
    using res len cells ex by blast
qed

theorem flag_iv_outliers_flags_witness:
  "''iv'' \<in> set (columns iv_example) \<and> float_column iv_example ''iv'' \<and>
   column_of (flag_iv_outliers iv_example QCLimits_default) ''iv_flag_outlier'' =
     Inr [Bool True, Bool False, Bool True] \<and>
   column_of (flag_iv_outliers iv_example QCLimits_default) ''iv'' =
     Inr [Num (Fin 0.005), Num (Fin 1.0), Num NaN]"
proof -
  have c: "''iv'' \<in> set (columns iv_example)"
    by (simp add: iv_example_def frame_of_def)
  have f: "float_column iv_example ''iv''"
    by (simp add: iv_example_def frame_of_def float_column_def row_of_def)
  have recs: "map (\<lambda>r. r ''iv'') (records iv_example) = [Num (Fin 0.005), Num (Fin 1.0), Num NaN]"
    by (simp add: iv_example_def frame_of_def row_of_def)
  from flag_iv_outliers_flags [OF c f, of QCLimits_default]
  obtain out where out: "flag_iv_outliers iv_example QCLimits_default = Inr out"
    and len: "length (records out) = length (records iv_example)"
    and same: "\<forall>i<length (records iv_example). \<forall>c. c \<noteq> ''iv_flag_outlier'' \<longrightarrow>
        (records out ! i) c = (records iv_example ! i) c"
    and flags: "column_of (flag_iv_outliers iv_example QCLimits_default) ''iv_flag_outlier'' =
        Inr [Bool True, Bool False, Bool True]"
    by blast
  have "map (\<lambda>r. r ''iv'') (records out) = map (\<lambda>r. r ''iv'') (records iv_example)"
    using len same by (auto intro!: nth_equalityI)
  then have "column_of (flag_iv_outliers iv_example QCLimits_default) ''iv'' =
      Inr [Num (Fin 0.005), Num (Fin 1.0), Num NaN]"
    by (simp add: out column_of_def recs)
  with c f flags show ?thesis by simp
qed

subsection \<open>\<open>enforce_bid_ask_rules\<close>\<close>

text \<open>
  Claim C5. On a frame with float columns \<open>bid\<close> and \<open>ask\<close>,
  \<open>enforce_bid_ask_rules\<close> keeps the columns and returns exactly the rows with
  \<open>bid >= 0\<close>, \<open>ask > 0\<close> and \<open>ask >= bid\<close>, unchanged and in their order: no row with
  \<open>ask < bid\<close>, \<open>bid < 0\<close> or \<open>ask <= 0\<close> is left.
\<close>

theorem enforce_bid_ask_rules_filters:
  assumes "''bid'' \<in> set (columns df)" and "''ask'' \<in> set (columns df)"
    and "float_column df ''bid''" and "float_column df ''ask''"
  shows "\<exists>out. enforce_bid_ask_rules df = Inr out \<and>
      columns out = columns df \<and>
      records out =
        filter (\<lambda>r. fle (Fin 0) (num_of (r ''bid'')) \<and> flt (Fin 0) (num_of (r ''ask'')) \<and>
                     fle (num_of (r ''bid'')) (num_of (r ''ask''))) (records df) \<and>
      (\<forall>r\<in>set (records out).
         \<not> flt (num_of (r ''ask'')) (num_of (r ''bid'')) \<and>
         \<not> flt (num_of (r ''bid'')) (Fin 0) \<and>
         \<not> fle (num_of (r ''ask'')) (Fin 0))"
proof -
  let ?ok = "\<lambda>r. fle (Fin 0) (num_of (r ''bid'')) \<and> flt (Fin 0) (num_of (r ''ask'')) \<and>
                  fle (num_of (r ''bid'')) (num_of (r ''ask''))"
  let ?out = "df\<lparr>records := filter bid_ask_ok (records df)\<rparr>"
  have ok: "bid_ask_ok = ?ok"
    by (rule ext) (simp add: bid_ask_ok_def fge_def fgt_def)
  have res: "enforce_bid_ask_rules df = Inr ?out"
    using assms by (simp add: enforce_bid_ask_rules_def)
  have recs: "records ?out = filter ?ok (records df)"
    by (simp add: ok)
  have none: "\<not> flt (num_of (r ''ask'')) (num_of (r ''bid'')) \<and>
      \<not> flt (num_of (r ''bid'')) (Fin 0) \<and> \<not> fle (num_of (r ''ask'')) (Fin 0)"
    if "r \<in> set (records ?out)" for r
  proof -
    from that have "?ok r" unfolding recs by simp
    then show ?thesis by (simp add: fle_not_flt flt_not_fle)
  qed
  have cols: "columns ?out = columns df" by simp
  show ?thesis
    using res cols recs none by blast
qed

theorem enforce_bid_ask_rules_filters_witness:
  "''bid'' \<in> set (columns bid_ask_example) \<and> ''ask'' \<in> set (columns bid_ask_example) \<and>
   float_column bid_ask_example ''bid'' \<and> float_column bid_ask_example ''ask'' \<and>
   column_of (enforce_bid_ask_rules bid_ask_example) ''instrument_name'' = Inr [Str ''A'', Str ''F''] \<and>
   column_of (enforce_bid_ask_rules bid_ask_example) ''bid'' = Inr [Num (Fin 10), Num (Fin 0)] \<and>
   column_of (enforce_bid_ask_rules bid_ask_example) ''ask'' = Inr [Num (Fin 12), Num (Fin 3)]"
proof -
  have c: "''bid'' \<in> set (columns bid_ask_example)" "''ask'' \<in> set (columns bid_ask_example)"
    by (simp_all add: bid_ask_example_def frame_of_def)
  have f: "float_column bid_ask_example ''bid''" "float_column bid_ask_example ''ask''"
    by (simp_all add: bid_ask_example_def frame_of_def float_column_def row_of_def)
  from enforce_bid_ask_rules_filters [OF c f]
  obtain out where out: "enforce_bid_ask_rules bid_ask_example = Inr out"
    and recs: "records out =
        filter (\<lambda>r. fle (Fin 0) (num_of (r ''bid'')) \<and> flt (Fin 0) (num_of (r ''ask'')) \<and>
                     fle (num_of (r ''bid'')) (num_of (r ''ask''))) (records bid_ask_example)"
    by blast
  have "column_of (enforce_bid_ask_rules bid_ask_example) ''instrument_name'' = Inr [Str ''A'', Str ''F'']"
    "column_of (enforce_bid_ask_rules bid_ask_example) ''bid'' = Inr [Num (Fin 10), Num (Fin 0)]"
    "column_of (enforce_bid_ask_rules bid_ask_example) ''ask'' = Inr [Num (Fin 12), Num (Fin 3)]"
    unfolding out column_of_def sum.case recs
    by (simp_all add: bid_ask_example_def frame_of_def row_of_def)
  with c f show ?thesis by simp
qed

subsection \<open>\<open>compute_mid_and_spread\<close>\<close>

lemmas frame_eval =
  frame_of_def row_of_def float_column_def set_column_def column_of_def

text \<open>
  Claim C7, as amended. On a frame with float columns \<open>bid\<close>, \<open>ask\<close> and \<open>mid\<close>,
  \<open>compute_mid_and_spread\<close> returns, and every row gets \<open>(ask - bid) / mid\<close> in IEEE
  arithmetic as its relative spread: null when \<open>mid\<close> is null, the real quotient when
  the three are numbers and \<open>mid\<close> is not zero, and for a zero \<open>mid\<close> the infinity with
  the sign of \<open>ask - bid\<close>, null only when \<open>ask = bid\<close>.
\<close>

theorem compute_mid_and_spread_cells:
  assumes "''bid'' \<in> set (columns df)" and "''ask'' \<in> set (columns df)"
    and "''mid'' \<in> set (columns df)"
    and "float_column df ''bid''" and "float_column df ''ask''" and "float_column df ''mid''"
  shows "\<exists>out. compute_mid_and_spread df = Inr out \<and>
      length (records out) = length (records df) \<and>
      (\<forall>i<length (records df).
         (records out ! i) ''spread_rel'' =
           Num (fdiv (fsub (num_of ((records df ! i) ''ask'')) (num_of ((records df ! i) ''bid'')))
                  (num_of ((records df ! i) ''mid''))) \<and>
         ((records df ! i) ''mid'' = Num NaN \<longrightarrow> (records out ! i) ''spread_rel'' = Num NaN) \<and>
         (\<forall>a b m. (records df ! i) ''ask'' = Num (Fin a) \<and> (records df ! i) ''bid'' = Num (Fin b) \<and>
              (records df ! i) ''mid'' = Num (Fin m) \<longrightarrow>
              (records out ! i) ''spread_rel'' =
                (if m \<noteq> 0 then Num (Fin ((a - b) / m))
                 else if b < a then Num PInf else if a < b then Num NInf else Num NaN)))"
proof -
  let ?out = "set_column ''spread_rel''
      (\<lambda>r. Num (fdiv (fsub (num_of (r ''ask'')) (num_of (r ''bid''))) (num_of (r ''mid'')))) df"
  have res: "compute_mid_and_spread df = Inr ?out"
    using assms by (simp add: compute_mid_and_spread_def)
  have len: "length (records ?out) = length (records df)"
    by (simp add: set_column_records)
  have cells: "(records ?out ! i) ''spread_rel'' =
        Num (fdiv (fsub (num_of ((records df ! i) ''ask'')) (num_of ((records df ! i) ''bid'')))
               (num_of ((records df ! i) ''mid''))) \<and>
      ((records df ! i) ''mid'' = Num NaN \<longrightarrow> (records ?out ! i) ''spread_rel'' = Num NaN) \<and>
      (\<forall>a b m. (records df ! i) ''ask'' = Num (Fin a) \<and> (records df ! i) ''bid'' = Num (Fin b) \<and>
           (records df ! i) ''mid'' = Num (Fin m) \<longrightarrow>
           (records ?out ! i) ''spread_rel'' =
             (if m \<noteq> 0 then Num (Fin ((a - b) / m))
              else if b < a then Num PInf else if a < b then Num NInf else Num NaN))"
    if "i < length (records df)" for i
    using that by (auto simp: set_column_records inf_of_sign_def)
  show ?thesis
    using res len cells by blast
qed

theorem compute_mid_and_spread_cells_witness:
  "''bid'' \<in> set (columns spread_example) \<and> ''ask'' \<in> set (columns spread_example) \<and>
   ''mid'' \<in> set (columns spread_example) \<and> float_column spread_example ''bid'' \<and>
   float_column spread_example ''ask'' \<and> float_column spread_example ''mid'' \<and>
   column_of (compute_mid_and_spread spread_example) ''spread_rel'' =
     Inr [Num (Fin (2 / 11)), Num NaN, Num NaN]"
proof -
  have c: "''bid'' \<in> set (columns spread_example)" "''ask'' \<in> set (columns spread_example)"
    "''mid'' \<in> set (columns spread_example)"
    by (simp_all add: spread_example_def frame_of_def)
  have f: "float_column spread_example ''bid''" "float_column spread_example ''ask''"
    "float_column spread_example ''mid''"
    by (simp_all add: spread_example_def frame_eval)
  from compute_mid_and_spread_cells [OF c f]
  obtain out where out: "compute_mid_and_spread spread_example = Inr out"
    and len: "length (records out) = length (records spread_example)"
    and cells: "\<forall>i<length (records spread_example). (records out ! i) ''spread_rel'' =
        Num (fdiv (fsub (num_of ((records spread_example ! i) ''ask''))
                        (num_of ((records spread_example ! i) ''bid'')))
               (num_of ((records spread_example ! i) ''mid'')))"
    by blast
  have n: "length (records spread_example) = 3"
    by (simp add: spread_example_def frame_of_def)
  have "map (\<lambda>r. r ''spread_rel'') (records out) = [Num (Fin (2 / 11)), Num NaN, Num NaN]"
  proof (rule nth_equalityI)
    show "length (map (\<lambda>r. r ''spread_rel'') (records out)) =
        length [Num (Fin (2 / 11)), Num NaN, Num NaN]"
      using len n by simp
    show "map (\<lambda>r. r ''spread_rel'') (records out) ! i = [Num (Fin (2 / 11)), Num NaN, Num NaN] ! i"
      if "i < length (map (\<lambda>r. r ''spread_rel'') (records out))" for i
    proof -
      from that len n have "i = 0 \<or> i = 1 \<or> i = 2" by auto
      then show ?thesis
        using cells len n
        by (auto simp: spread_example_def frame_of_def row_of_def inf_of_sign_def)
    qed
  qed
  then have "column_of (compute_mid_and_spread spread_example) ''spread_rel'' =
      Inr [Num (Fin (2 / 11)), Num NaN, Num NaN]"
    by (simp add: out column_of_def)
  with c f show ?thesis by simp
qed

text \<open>
  Claim C7 as stated fails where \<open>mid\<close> is zero and \<open>ask\<close> differs from \<open>bid\<close>: the
  spread of \<open>bid = 1\<close>, \<open>ask = 3\<close>, \<open>mid = 0\<close> is \<open>+inf\<close>, which is no null.
\<close>

theorem compute_mid_and_spread_zero_mid:
  "column_of (compute_mid_and_spread zero_mid_example) ''spread_rel'' = Inr [Num PInf]"
  by (simp add: compute_mid_and_spread_def zero_mid_example_def frame_eval inf_of_sign_def)

subsection \<open>\<open>add_moneyness\<close>\<close>

text \<open>
  Claim C8, as amended. On a frame with the columns \<open>strike\<close>, \<open>index_price\<close> and
  \<open>underlying_price\<close>, the first and the last of them float, \<open>add_moneyness\<close> returns,
  and every row gets \<open>log(strike / underlying_price)\<close> in IEEE arithmetic: the real
  logarithm of the quotient when the two are positive, and also when the two are negative;
  null when one of them is null, when they are numbers of opposite sign, when the strike
  is negative and the price zero, and when both are zero; \<open>-inf\<close> for a zero strike and a
  price that is not zero; \<open>+inf\<close> for a positive strike and a zero price.
\<close>

theorem add_moneyness_cells:
  assumes "''strike'' \<in> set (columns df)" and "''index_price'' \<in> set (columns df)"
    and "''underlying_price'' \<in> set (columns df)"
    and "float_column df ''strike''" and "float_column df ''underlying_price''"
  shows "\<exists>out. add_moneyness df = Inr out \<and>
      length (records out) = length (records df) \<and>
      (\<forall>i<length (records df).
         (records out ! i) ''moneyness'' =
           Num (flog (fdiv (num_of ((records df ! i) ''strike''))
                           (num_of ((records df ! i) ''underlying_price'')))) \<and>
         ((records df ! i) ''strike'' = Num NaN \<or> (records df ! i) ''underlying_price'' = Num NaN
            \<longrightarrow> (records out ! i) ''moneyness'' = Num NaN) \<and>
         (\<forall>k u. (records df ! i) ''strike'' = Num (Fin k) \<and>
              (records df ! i) ''underlying_price'' = Num (Fin u) \<longrightarrow>
              (records out ! i) ''moneyness'' =
                (if 0 < k \<and> 0 < u \<or> k < 0 \<and> u < 0 then Num (Fin (ln (k / u)))
                 else if k = 0 \<and> u \<noteq> 0 then Num NInf
                 else if 0 < k \<and> u = 0 then Num PInf
                 else Num NaN)))"
proof -
  let ?out = "set_column ''moneyness''
      (\<lambda>r. Num (flog (fdiv (num_of (r ''strike'')) (num_of (r ''underlying_price''))))) df"
  have res: "add_moneyness df = Inr ?out"
    using assms by (simp add: add_moneyness_def)
  have len: "length (records ?out) = length (records df)"
    by (simp add: set_column_records)
  have fin: "flog (fdiv (Fin k) (Fin u)) =
      (if 0 < k \<and> 0 < u \<or> k < 0 \<and> u < 0 then Fin (ln (k / u))
       else if k = 0 \<and> u \<noteq> 0 then NInf
       else if 0 < k \<and> u = 0 then PInf
       else NaN)" for k u :: real
  proof (cases "u = 0")
    case True
    then show ?thesis by (auto simp: inf_of_sign_def)
  next
    case False
    then show ?thesis
      by (auto simp: zero_less_divide_iff divide_less_0_iff not_less le_less)
  qed
  have cells: "(records ?out ! i) ''moneyness'' =
        Num (flog (fdiv (num_of ((records df ! i) ''strike''))
                        (num_of ((records df ! i) ''underlying_price'')))) \<and>
      ((records df ! i) ''strike'' = Num NaN \<or> (records df ! i) ''underlying_price'' = Num NaN
         \<longrightarrow> (records ?out ! i) ''moneyness'' = Num NaN) \<and>
      (\<forall>k u. (records df ! i) ''strike'' = Num (Fin k) \<and>
           (records df ! i) ''underlying_price'' = Num (Fin u) \<longrightarrow>
           (records ?out ! i) ''moneyness'' =
             (if 0 < k \<and> 0 < u \<or> k < 0 \<and> u < 0 then Num (Fin (ln (k / u)))
              else if k = 0 \<and> u \<noteq> 0 then Num NInf
              else if 0 < k \<and> u = 0 then Num PInf
              else Num NaN))"
    if "i < length (records df)" for i
  proof (intro conjI allI impI)
    show "(records ?out ! i) ''moneyness'' =
        Num (flog (fdiv (num_of ((records df ! i) ''strike''))
                        (num_of ((records df ! i) ''underlying_price''))))"
      using that by (simp add: set_column_records)
    show "(records ?out ! i) ''moneyness'' = Num NaN"
      if "(records df ! i) ''strike'' = Num NaN \<or> (records df ! i) ''underlying_price'' = Num NaN"
      using that \<open>i < length (records df)\<close> by (auto simp: set_column_records)
    show "(records ?out ! i) ''moneyness'' =
        (if 0 < k \<and> 0 < u \<or> k < 0 \<and> u < 0 then Num (Fin (ln (k / u)))
         else if k = 0 \<and> u \<noteq> 0 then Num NInf
         else if 0 < k \<and> u = 0 then Num PInf
         else Num NaN)"
      if "(records df ! i) ''strike'' = Num (Fin k) \<and>
          (records df ! i) ''underlying_price'' = Num (Fin u)" for k u
    proof -
      have "(records ?out ! i) ''moneyness'' = Num (flog (fdiv (Fin k) (Fin u)))"
        using that \<open>i < length (records df)\<close> by (simp add: set_column_records)
      then show ?thesis
        unfolding fin by simp
    qed
  qed
  show ?thesis
    using res len cells by blast
qed

theorem add_moneyness_cells_witness:
  "''strike'' \<in> set (columns moneyness_example) \<and>
   ''index_price'' \<in> set (columns moneyness_example) \<and>
   ''underlying_price'' \<in> set (columns moneyness_example) \<and>
   float_column moneyness_example ''strike'' \<and>
   float_column moneyness_example ''underlying_price'' \<and>
   column_of (add_moneyness moneyness_example) ''moneyness'' =
     Inr [Num (Fin (ln 1)), Num NaN, Num NaN]"
proof -
  have c: "''strike'' \<in> set (columns moneyness_example)"
    "''index_price'' \<in> set (columns moneyness_example)"
    "''underlying_price'' \<in> set (columns moneyness_example)"
    by (simp_all add: moneyness_example_def frame_of_def)
  have f: "float_column moneyness_example ''strike''"
    "float_column moneyness_example ''underlying_price''"
    by (simp_all add: moneyness_example_def frame_eval)
  from add_moneyness_cells [OF c f]
  obtain out where out: "add_moneyness moneyness_example = Inr out"
    and len: "length (records out) = length (records moneyness_example)"
    and cells: "\<forall>i<length (records moneyness_example). (records out ! i) ''moneyness'' =
        Num (flog (fdiv (num_of ((records moneyness_example ! i) ''strike''))
                        (num_of ((records moneyness_example ! i) ''underlying_price''))))"
    by blast
  have n: "length (records moneyness_example) = 3"
    by (simp add: moneyness_example_def frame_of_def)
  have "map (\<lambda>r. r ''moneyness'') (records out) = [Num (Fin (ln 1)), Num NaN, Num NaN]"
  proof (rule nth_equalityI)
    show "length (map (\<lambda>r. r ''moneyness'') (records out)) =
        length [Num (Fin (ln 1)), Num NaN, Num NaN]"
      using len n by simp
    show "map (\<lambda>r. r ''moneyness'') (records out) ! i = [Num (Fin (ln 1)), Num NaN, Num NaN] ! i"
      if "i < length (map (\<lambda>r. r ''moneyness'') (records out))" for i
    proof -
      from that len n have "i = 0 \<or> i = 1 \<or> i = 2" by auto
      then show ?thesis
        using cells len n
        by (auto simp: moneyness_example_def frame_of_def row_of_def)
    qed
  qed
  then have "column_of (add_moneyness moneyness_example) ''moneyness'' =
      Inr [Num (Fin (ln 1)), Num NaN, Num NaN]"
    by (simp add: out column_of_def)
  with c f show ?thesis by simp
qed

text \<open>
  Claim C8 as stated fails for operands that are not positive: a zero strike gives
  \<open>-inf\<close>, a negative strike over a negative price the logarithm of a positive quotient,
  a positive strike over a zero price \<open>+inf\<close>; none of them is null.
\<close>

theorem add_moneyness_non_positive:
  "column_of (add_moneyness non_positive_example) ''moneyness'' =
     Inr [Num NInf, Num (Fin (ln 2)), Num PInf]"
  by (simp add: add_moneyness_def non_positive_example_def frame_eval inf_of_sign_def)

text \<open>The guard reads \<open>index_price\<close>, the quotient \<open>underlying_price\<close>.\<close>

lemma add_moneyness_KeyError:
  "add_moneyness (frame_of [''strike'', ''index_price''] [[Num (Fin 1), Num (Fin 2)]]) =
     Inl (KeyError ''underlying_price'')"
  by (simp add: add_moneyness_def frame_of_def)

lemma add_moneyness_no_index_price:
  "''index_price'' \<notin> set (columns df) \<Longrightarrow> add_moneyness df = Inr df"
  by (simp add: add_moneyness_def)

lemma compute_mid_and_spread_KeyError:
  "compute_mid_and_spread (frame_of [''bid'', ''ask''] [[Num (Fin 1), Num (Fin 2)]]) =
     Inl (KeyError ''mid'')"
  by (simp add: compute_mid_and_spread_def frame_eval)

subsection \<open>\<open>filter_rename_columns\<close>\<close>

lemma copy_column_records:
  "length (records out) = length (records df) \<Longrightarrow>
   length (records (copy_column v df k out)) = length (records df)"
  by (simp add: copy_column_def)

lemma copy_column_nth:
  "length (records out) = length (records df) \<Longrightarrow> i < length (records df) \<Longrightarrow>
   (records (copy_column v df k out) ! i) c =
     (if c = v then (records df ! i) k else (records out ! i) c)"
  by (simp add: copy_column_def)

lemma copy_column_columns:
  "v \<in> set (columns out) \<Longrightarrow> columns (copy_column v df k out) = columns out"
  by (simp add: copy_column_def)

lemma rename_loop_raises:
  "isl (rename_loop items df out) \<longleftrightarrow> (\<exists>k\<in>set (map fst items). k \<notin> set (columns df))"
  by (induction items df out rule: rename_loop.induct) auto

lemma rename_loop_result:
  assumes "rename_loop items df out = Inr res"
    and "length (records out) = length (records df)"
    and "snd ` set items \<subseteq> set (columns out)"
    and "distinct (map snd items)"
  shows "columns res = columns out \<and> length (records res) = length (records df) \<and>
     (\<forall>i<length (records df).
        (\<forall>(k, v)\<in>set items. (records res ! i) v = (records df ! i) k) \<and>
        (\<forall>c. c \<notin> snd ` set items \<longrightarrow> (records res ! i) c = (records out ! i) c))"
  using assms
proof (induction items df out rule: rename_loop.induct)
  case (1 df out)
  then show ?case by simp
next
  case (2 k v rest df out)
  let ?out = "copy_column v df k out"
  from "2.prems"(1) have present: "k \<in> set (columns df)"
    and rest: "rename_loop rest df ?out = Inr res"
    by (auto split: if_splits)
  have v: "v \<in> set (columns out)" using "2.prems"(3) by simp
  have cols: "columns ?out = columns out" using v by (rule copy_column_columns)
  have len: "length (records ?out) = length (records df)"
    using "2.prems"(2) by (rule copy_column_records)
  have sub: "snd ` set rest \<subseteq> set (columns ?out)"
    using "2.prems"(3) cols by auto
  have dist: "distinct (map snd rest)" and fresh: "v \<notin> snd ` set rest"
    using "2.prems"(4) by auto
  have present': "\<not> k \<notin> set (columns df)" using present by simp
  note IH = "2.IH" [OF present' rest len sub dist]
  show ?case
  proof (intro conjI allI impI)
    show "columns res = columns out" using IH cols by simp
    show "length (records res) = length (records df)" using IH by simp
    show "\<forall>(k', v')\<in>set ((k, v) # rest). (records res ! i) v' = (records df ! i) k'"
      if "i < length (records df)" for i
    proof -
      have "(records res ! i) v = (records ?out ! i) v"
        using IH that fresh by blast
      also have "\<dots> = (records df ! i) k"
        using "2.prems"(2) that by (simp add: copy_column_nth)
      finally show ?thesis using IH that by auto
    qed
    show "(records res ! i) c = (records out ! i) c"
      if "i < length (records df)" and "c \<notin> snd ` set ((k, v) # rest)" for i c
    proof -
      from that have "c \<noteq> v" and "c \<notin> snd ` set rest" by auto
      then have "(records res ! i) c = (records ?out ! i) c"
        using IH that(1) by blast
      also have "\<dots> = (records out ! i) c"
        using "2.prems"(2) that(1) \<open>c \<noteq> v\<close> by (simp add: copy_column_nth)
      finally show ?thesis .
    qed
  qed
qed

lemma ONLY_AND_RENAMED_distinct: "distinct (map snd ONLY_AND_RENAMED)"
  by (simp add: ONLY_AND_RENAMED_def)

text \<open>
  Claim C9. \<open>filter_rename_columns\<close> raises exactly when a source column of the
  canonical list is missing from the input. When it returns, the output has the canonical
  columns, in the order of the list, and as many rows as the input, and every canonical
  column holds the cells of its source column.
\<close>

theorem filter_rename_columns_projects:
  "(isl (filter_rename_columns df) \<longleftrightarrow>
      (\<exists>k\<in>set (map fst ONLY_AND_RENAMED). k \<notin> set (columns df))) \<and>
   (\<forall>out. filter_rename_columns df = Inr out \<longrightarrow>
      columns out =
        [''timestamp'', ''underlying'', ''instrument_name'', ''expiry'', ''strike'', ''option_type'',
         ''bid'', ''ask'', ''mid'', ''iv'', ''delta'', ''gamma'', ''vega'', ''theta'', ''rho'', ''F'',
         ''S'', ''spread'', ''moneyness'', ''iv_flag_outlier''] \<and>
      length (records out) = length (records df) \<and>
      (\<forall>i<length (records df). \<forall>(k, v)\<in>set ONLY_AND_RENAMED.
         (records out ! i) v = (records df ! i) k))"
proof (intro conjI allI impI)
  show "isl (filter_rename_columns df) \<longleftrightarrow>
      (\<exists>k\<in>set (map fst ONLY_AND_RENAMED). k \<notin> set (columns df))"
    unfolding filter_rename_columns_def by (rule rename_loop_raises)
next
  fix out
  assume res: "filter_rename_columns df = Inr out"
  let ?init = "\<lparr>columns = map snd ONLY_AND_RENAMED,
      records = map (\<lambda>r. (\<lambda>c. Num NaN)) (records df)\<rparr>"
  have "columns out = columns ?init \<and> length (records out) = length (records df) \<and>
     (\<forall>i<length (records df).
        (\<forall>(k, v)\<in>set ONLY_AND_RENAMED. (records out ! i) v = (records df ! i) k) \<and>
        (\<forall>c. c \<notin> snd ` set ONLY_AND_RENAMED \<longrightarrow> (records out ! i) c = (records ?init ! i) c))"
  proof (rule rename_loop_result)
    show "rename_loop ONLY_AND_RENAMED df ?init = Inr out"
      using res by (simp add: filter_rename_columns_def)
    show "length (records ?init) = length (records df)" by simp
    show "snd ` set ONLY_AND_RENAMED \<subseteq> set (columns ?init)" by simp
    show "distinct (map snd ONLY_AND_RENAMED)" by (rule ONLY_AND_RENAMED_distinct)
  qed
  then show "columns out =
        [''timestamp'', ''underlying'', ''instrument_name'', ''expiry'', ''strike'', ''option_type'',
         ''bid'', ''ask'', ''mid'', ''iv'', ''delta'', ''gamma'', ''vega'', ''theta'', ''rho'', ''F'',
         ''S'', ''spread'', ''moneyness'', ''iv_flag_outlier'']"
    and "length (records out) = length (records df)"
    and "\<And>i. i < length (records df) \<Longrightarrow>
         \<forall>(k, v)\<in>set ONLY_AND_RENAMED. (records out ! i) v = (records df ! i) k"
    by (simp_all add: ONLY_AND_RENAMED_def)
qed

theorem filter_rename_columns_projects_witness:
  "\<not> isl (filter_rename_columns canonical_example) \<and>
   column_of (filter_rename_columns canonical_example) ''timestamp'' =
     Inr [Time (mk_datetime 739550 12 30 0 0)] \<and>
   column_of (filter_rename_columns canonical_example) ''expiry'' =
     Inr [Time (mk_datetime 739550 8 0 0 0)] \<and>
   column_of (filter_rename_columns canonical_example) ''spread'' = Inr [Num (Fin (2 / 11))] \<and>
   isl (filter_rename_columns spread_example)"
proof -
  note proj = filter_rename_columns_projects [of canonical_example]
  have cols: "columns canonical_example =
      [''kind'', ''slot_time_utc'', ''underlying'', ''instrument_name'', ''expiry_utc'', ''strike'',
       ''option_type'', ''bid'', ''ask'', ''mid'', ''iv'', ''delta'', ''gamma'', ''vega'', ''theta'',
       ''rho'', ''F'', ''S'', ''spread_rel'', ''moneyness'', ''iv_flag_outlier'']"
    by (simp add: canonical_example_def frame_of_def)
  have "\<not> (\<exists>k\<in>set (map fst ONLY_AND_RENAMED). k \<notin> set (columns canonical_example))"
    unfolding cols by (simp add: ONLY_AND_RENAMED_def)
  with proj have ok: "\<not> isl (filter_rename_columns canonical_example)" by blast
  then obtain out where out: "filter_rename_columns canonical_example = Inr out"
    by (cases "filter_rename_columns canonical_example") auto
  have n: "length (records canonical_example) = 1"
    by (simp add: canonical_example_def frame_of_def)
  from proj out have len: "length (records out) = 1"
    and cells: "\<forall>(k, v)\<in>set ONLY_AND_RENAMED. (records out ! 0) v = (records canonical_example ! 0) k"
    using n by auto
  from len obtain r where recs: "records out = [r]"
    by (cases "records out") auto
  have "r ''timestamp'' = (records canonical_example ! 0) ''slot_time_utc''"
    "r ''expiry'' = (records canonical_example ! 0) ''expiry_utc''"
    "r ''spread'' = (records canonical_example ! 0) ''spread_rel''"
    using cells recs by (auto simp: ONLY_AND_RENAMED_def)
  then have vals: "r ''timestamp'' = Time (mk_datetime 739550 12 30 0 0)"
    "r ''expiry'' = Time (mk_datetime 739550 8 0 0 0)"
    "r ''spread'' = Num (Fin (2 / 11))"
    by (simp_all add: canonical_example_def frame_of_def row_of_def)
  have bad: "isl (filter_rename_columns spread_example)"
    using filter_rename_columns_projects [of spread_example]
    by (simp add: spread_example_def frame_of_def ONLY_AND_RENAMED_def)
  show ?thesis
    using ok bad by (simp add: out column_of_def recs vals)
qed

section \<open>Properties of the normalisation\<close>

lemma to_numeric_Num [simp]: "to_numeric lib (Num x) = x"
  by (simp add: to_numeric_def)

lemma fdiv_100_twice: "fdiv (fdiv x (Fin 100)) (Fin 100) = fdiv x (Fin 10000)"
  by (cases x) simp_all

lemma map_raise_Inr:
  "map_raise f xs = Inr ys \<Longrightarrow>
     length ys = length xs \<and> (\<forall>i<length xs. f (xs ! i) = Inr (ys ! i))"
proof (induction xs arbitrary: ys)
  case Nil
  then show ?case by simp
next
  case (Cons x xs)
  from Cons.prems obtain y ys' where fx: "f x = Inr y" and rest: "map_raise f xs = Inr ys'"
    and ys: "ys = y # ys'"
    by (auto split: sum.splits)
  from Cons.IH [OF rest] have len: "length ys' = length xs"
    and nth: "\<forall>i<length xs. f (xs ! i) = Inr (ys' ! i)" by simp_all
  show ?case
  proof (intro conjI allI impI)
    show "length ys = length (x # xs)" using len ys by simp
    show "f ((x # xs) ! i) = Inr (ys ! i)" if "i < length (x # xs)" for i
      using that fx nth ys by (cases i) simp_all
  qed
qed

subsection \<open>The loop over the aliases\<close>

lemma coalesce_alias_length:
  "length (records (coalesce_alias out tc)) = length (records out)"
  by (cases tc) (simp add: coalesce_alias_def set_column_records split: option.splits)

lemma coalesce_alias_columns_mono:
  "set (columns out) \<subseteq> set (columns (coalesce_alias out tc))"
  by (cases tc) (auto simp: coalesce_alias_def set_column_columns split: option.splits)

lemma coalesce_alias_columns_upper:
  "set (columns (coalesce_alias out tc)) \<subseteq> insert (fst tc) (set (columns out))"
  by (cases tc) (auto simp: coalesce_alias_def set_column_columns split: option.splits)

lemma coalesce_alias_cell:
  assumes "i < length (records out)" and "c \<noteq> fst tc \<or> c \<in> set (columns out)"
  shows "(records (coalesce_alias out tc) ! i) c = (records out ! i) c"
  using assms
  by (cases tc) (auto simp: coalesce_alias_def set_column_records split: option.splits)

lemma alias_loop_length:
  "length (records (foldl coalesce_alias out as)) = length (records out)"
  by (induction as arbitrary: out) (simp_all add: coalesce_alias_length)

lemma alias_loop_columns_mono:
  "set (columns out) \<subseteq> set (columns (foldl coalesce_alias out as))"
proof (induction as arbitrary: out)
  case Nil
  then show ?case by simp
next
  case (Cons tc as)
  have "set (columns out) \<subseteq> set (columns (coalesce_alias out tc))"
    by (rule coalesce_alias_columns_mono)
  also have "\<dots> \<subseteq> set (columns (foldl coalesce_alias (coalesce_alias out tc) as))"
    by (rule Cons.IH)
  finally show ?case by simp
qed

lemma alias_loop_columns_upper:
  "set (columns (foldl coalesce_alias out as)) \<subseteq> set (columns out) \<union> fst ` set as"
proof (induction as arbitrary: out)
  case Nil
  then show ?case by simp
next
  case (Cons tc as)
  have "set (columns (foldl coalesce_alias (coalesce_alias out tc) as))
      \<subseteq> set (columns (coalesce_alias out tc)) \<union> fst ` set as"
    by (rule Cons.IH)
  also have "\<dots> \<subseteq> insert (fst tc) (set (columns out)) \<union> fst ` set as"
    using coalesce_alias_columns_upper [of out tc] by auto
  finally show ?case by auto
qed

lemma alias_loop_cell:
  assumes "i < length (records out)" and "c \<notin> fst ` set as \<or> c \<in> set (columns out)"
  shows "(records (foldl coalesce_alias out as) ! i) c = (records out ! i) c"
  using assms
proof (induction as arbitrary: out)
  case Nil
  then show ?case by simp
next
  case (Cons tc as)
  let ?out = "coalesce_alias out tc"
  have i: "i < length (records ?out)"
    using Cons.prems(1) by (simp add: coalesce_alias_length)
  have c: "c \<notin> fst ` set as \<or> c \<in> set (columns ?out)"
    using Cons.prems(2) coalesce_alias_columns_mono [of out tc] by auto
  have "(records (foldl coalesce_alias ?out as) ! i) c = (records ?out ! i) c"
    by (rule Cons.IH [OF i c])
  also have "\<dots> = (records out ! i) c"
    using Cons.prems by (intro coalesce_alias_cell) auto
  finally show ?case by simp
qed

lemma alias_loop_member:
  assumes "c \<notin> fst ` set as"
  shows "c \<in> set (columns (foldl coalesce_alias out as)) \<longleftrightarrow> c \<in> set (columns out)"
  using assms alias_loop_columns_mono [of out as] alias_loop_columns_upper [of out as]
  by auto

lemma ALIASES_split:
  "ALIASES =
     [(''slot_time_utc'', [''slot_time_utc'']),
      (''timestamp'', [''timestamp_utc'']),
      (''instrument_name'', [''instrument_name'', ''symbol'', ''inst'']),
      (''bid'', [''best_bid_price'', ''bid_price'', ''bid'']),
      (''ask'', [''best_ask_price'', ''ask_price'', ''ask'']),
      (''mark_price'', [''mark_price'', ''mark'', ''last_price''])] @
     (''iv'', [''mark_iv'', ''iv'', ''implied_volatility'']) #
     [(''delta'', [''delta'']),
      (''gamma'', [''gamma'']),
      (''vega'', [''vega'']),
      (''theta'', [''theta'']),
      (''F'', [''underlying_price'']),
      (''S'', [''index_price'']),
      (''volume'', [''volume'', ''volume_24h'']),
      (''open_interest'', [''open_interest'', ''oi'']),
      (''maturity'', [''maturity'', ''expiry_utc'', ''expiration'', ''expiration_date'',
                      ''expiration_timestamp'']),
      (''strike'', [''strike'', ''k'', ''strike_price'']),
      (''option_type'', [''option_type'', ''is_call'', ''call_put'', ''right'']),
      (''kind'', [''kind'', ''instrument_type'', ''type''])]"
  by (simp add: ALIASES_def)

lemma alias_loop_iv:
  fixes df :: frame
  defines "out \<equiv> foldl coalesce_alias df ALIASES"
  shows "length (records out) = length (records df)"
    and "''iv'' \<in> set (columns out) \<longleftrightarrow>
          ''iv'' \<in> set (columns df) \<or> ''mark_iv'' \<in> set (columns df) \<or>
          ''implied_volatility'' \<in> set (columns df)"
    and "''iv'' \<in> set (columns out) \<Longrightarrow> i < length (records df) \<Longrightarrow>
          (records out ! i) ''iv'' = (records df ! i) (iv_source df)"
proof -
  define pre where "pre = [(''slot_time_utc'', [''slot_time_utc'']),
      (''timestamp'', [''timestamp_utc'']),
      (''instrument_name'', [''instrument_name'', ''symbol'', ''inst'']),
      (''bid'', [''best_bid_price'', ''bid_price'', ''bid'']),
      (''ask'', [''best_ask_price'', ''ask_price'', ''ask'']),
      (''mark_price'', [''mark_price'', ''mark'', ''last_price''])]"
  define ivE where "ivE = (''iv'', [''mark_iv'', ''iv'', ''implied_volatility''])"
  define post where "post = [(''delta'', [''delta'']),
      (''gamma'', [''gamma'']),
      (''vega'', [''vega'']),
      (''theta'', [''theta'']),
      (''F'', [''underlying_price'']),
      (''S'', [''index_price'']),
      (''volume'', [''volume'', ''volume_24h'']),
      (''open_interest'', [''open_interest'', ''oi'']),
      (''maturity'', [''maturity'', ''expiry_utc'', ''expiration'', ''expiration_date'',
                      ''expiration_timestamp'']),
      (''strike'', [''strike'', ''k'', ''strike_price'']),
      (''option_type'', [''option_type'', ''is_call'', ''call_put'', ''right'']),
      (''kind'', [''kind'', ''instrument_type'', ''type''])]"
  define A where "A = foldl coalesce_alias df pre"
  define B where "B = coalesce_alias A ivE"
  have split: "ALIASES = pre @ ivE # post"
    unfolding pre_def ivE_def post_def by (rule ALIASES_split)
  have out: "out = foldl coalesce_alias B post"
    unfolding out_def B_def A_def split by (simp only: foldl_append foldl_Cons)
  have pre_targets: "c \<notin> fst ` set pre"
    if "c \<in> {''iv'', ''mark_iv'', ''implied_volatility''}" for c
    using that by (auto simp: pre_def)
  have post_targets: "''iv'' \<notin> fst ` set post"
    by (simp add: post_def)
  have lenA: "length (records A) = length (records df)"
    unfolding A_def by (rule alias_loop_length)
  have lenB: "length (records B) = length (records df)"
    unfolding B_def using lenA by (simp only: coalesce_alias_length)
  show len: "length (records out) = length (records df)"
    unfolding out using lenB by (simp only: alias_loop_length)
  have memA: "c \<in> set (columns A) \<longleftrightarrow> c \<in> set (columns df)"
    if "c \<in> {''iv'', ''mark_iv'', ''implied_volatility''}" for c
    unfolding A_def by (rule alias_loop_member [OF pre_targets [OF that]])
  have cellA: "(records A ! i) c = (records df ! i) c"
    if "c \<in> {''iv'', ''mark_iv'', ''implied_volatility''}" and "i < length (records df)" for c i
    unfolding A_def using pre_targets [OF that(1)] that(2) by (intro alias_loop_cell) simp_all
  have memA3: "''iv'' \<in> set (columns A) \<longleftrightarrow> ''iv'' \<in> set (columns df)"
    "''mark_iv'' \<in> set (columns A) \<longleftrightarrow> ''mark_iv'' \<in> set (columns df)"
    "''implied_volatility'' \<in> set (columns A) \<longleftrightarrow> ''implied_volatility'' \<in> set (columns df)"
    by (simp_all add: memA)
  have memB: "''iv'' \<in> set (columns B) \<longleftrightarrow>
      ''iv'' \<in> set (columns A) \<or> ''mark_iv'' \<in> set (columns A) \<or>
      ''implied_volatility'' \<in> set (columns A)"
    unfolding B_def ivE_def
    by (auto simp: coalesce_alias_def set_column_columns split: option.splits if_splits)
  have memOut: "''iv'' \<in> set (columns out) \<longleftrightarrow> ''iv'' \<in> set (columns B)"
    unfolding out by (rule alias_loop_member [OF post_targets])
  show "''iv'' \<in> set (columns out) \<longleftrightarrow>
      ''iv'' \<in> set (columns df) \<or> ''mark_iv'' \<in> set (columns df) \<or>
      ''implied_volatility'' \<in> set (columns df)"
    using memOut memB memA3 by simp
  show "(records out ! i) ''iv'' = (records df ! i) (iv_source df)"
    if iv: "''iv'' \<in> set (columns out)" and i: "i < length (records df)"
  proof -
    have iB: "i < length (records B)" using i lenB by simp
    have iA: "i < length (records A)" using i lenA by simp
    have "(records out ! i) ''iv'' = (records B ! i) ''iv''"
      unfolding out using iB post_targets by (intro alias_loop_cell) simp_all
    also have "\<dots> = (records A ! i) (iv_source A)"
      using iA iv [unfolded memOut memB]
      unfolding B_def ivE_def
      by (auto simp: coalesce_alias_def set_column_records iv_source_def
          split: option.splits if_splits)
    also have "iv_source A = iv_source df"
      unfolding iv_source_def using memA3 by simp
    also have "(records A ! i) (iv_source df) = (records df ! i) (iv_source df)"
      using i by (intro cellA) (simp_all add: iv_source_def)
    finally show ?thesis .
  qed
qed

subsection \<open>Timestamps and the numeric casts\<close>

lemma timestamp_to_ms_Inr:
  assumes "timestamp_to_ms lib out = Inr res"
  shows "columns res = columns out" and "length (records res) = length (records out)"
    and "i < length (records out) \<Longrightarrow> c \<noteq> ''timestamp'' \<Longrightarrow>
          (records res ! i) c = (records out ! i) c"
proof -
  show "columns res = columns out"
    using assms by (auto simp: timestamp_to_ms_def split: if_splits sum.splits)
  show "length (records res) = length (records out)"
    using assms
    by (auto simp: timestamp_to_ms_def split: if_splits sum.splits dest: map_raise_Inr)
  show "(records res ! i) c = (records out ! i) c"
    if i: "i < length (records out)" and c: "c \<noteq> ''timestamp''"
  proof (cases "''timestamp'' \<in> set (columns out)")
    case False
    with assms show ?thesis by (simp add: timestamp_to_ms_def)
  next
    case True
    let ?f = "\<lambda>r. case to_utc_ms lib (r ''timestamp'') of
                    Inl e \<Rightarrow> Inl e
                  | Inr ms \<Rightarrow> Inr (r(''timestamp'' := Num (Fin (real_of_int ms))))"
    from assms True obtain rs where rs: "map_raise ?f (records out) = Inr rs"
      and res: "res = out\<lparr>records := rs\<rparr>"
      by (auto simp: timestamp_to_ms_def split: sum.splits)
    from map_raise_Inr [OF rs] i have "?f (records out ! i) = Inr (rs ! i)" by simp
    then obtain ms where "(records out ! i)(''timestamp'' := Num (Fin (real_of_int ms))) = rs ! i"
      by (cases "to_utc_ms lib ((records out ! i) ''timestamp'')") auto
    then have "(rs ! i) c = ((records out ! i)(''timestamp'' := Num (Fin (real_of_int ms)))) c"
      by simp
    then have "(rs ! i) c = (records out ! i) c"
      using c by simp
    then show ?thesis by (simp add: res)
  qed
qed

lemma numeric_cast_length:
  "length (records (numeric_cast lib out col)) = length (records out)"
  by (simp add: numeric_cast_def set_column_records Let_def)

lemma numeric_cast_columns:
  "columns (numeric_cast lib out col) = columns out"
  by (simp add: numeric_cast_def set_column_columns Let_def)

lemma numeric_cast_other:
  "i < length (records out) \<Longrightarrow> c \<noteq> col \<Longrightarrow>
   (records (numeric_cast lib out col) ! i) c = (records out ! i) c"
  by (auto simp: numeric_cast_def set_column_records Let_def)

lemma numeric_cast_iv:
  "i < length (records out) \<Longrightarrow> ''iv'' \<in> set (columns out) \<Longrightarrow>
   (records (numeric_cast lib out ''iv'') ! i) ''iv'' =
     Num (fdiv (to_numeric lib ((records out ! i) ''iv'')) (Fin 100))"
  by (simp add: numeric_cast_def set_column_records set_column_columns Let_def)

lemma numeric_loop_length:
  "length (records (foldl (numeric_cast lib) out cols)) = length (records out)"
  by (induction cols arbitrary: out) (simp_all add: numeric_cast_length)

lemma numeric_loop_columns:
  "columns (foldl (numeric_cast lib) out cols) = columns out"
  by (induction cols arbitrary: out) (simp_all add: numeric_cast_columns)

lemma numeric_loop_other:
  "i < length (records out) \<Longrightarrow> c \<notin> set cols \<Longrightarrow>
   (records (foldl (numeric_cast lib) out cols) ! i) c = (records out ! i) c"
  by (induction cols arbitrary: out) (simp_all add: numeric_cast_length numeric_cast_other)

lemma numeric_loop_iv:
  assumes "i < length (records out)" and "''iv'' \<in> set (columns out)"
  shows "(records (foldl (numeric_cast lib) out NUMERIC_TARGETS) ! i) ''iv'' =
     Num (fdiv (to_numeric lib ((records out ! i) ''iv'')) (Fin 100))"
proof -
  define pre where "pre = [''bid'', ''ask'', ''mark_price'']"
  define post where "post = [''delta'', ''gamma'', ''vega'', ''theta'', ''underlying_price'',
      ''strike'', ''volume'', ''open_interest'', ''S'', ''F'']"
  define A where "A = foldl (numeric_cast lib) out pre"
  define B where "B = numeric_cast lib A ''iv''"
  have split: "NUMERIC_TARGETS = pre @ ''iv'' # post"
    by (simp add: NUMERIC_TARGETS_def pre_def post_def)
  have res: "foldl (numeric_cast lib) out NUMERIC_TARGETS = foldl (numeric_cast lib) B post"
    unfolding split B_def A_def by (simp only: foldl_append foldl_Cons)
  have pre: "''iv'' \<notin> set pre" and post: "''iv'' \<notin> set post"
    by (simp_all add: pre_def post_def)
  have iA: "i < length (records A)"
    unfolding A_def using assms(1) by (simp only: numeric_loop_length)
  have ivA: "''iv'' \<in> set (columns A)"
    unfolding A_def using assms(2) by (simp only: numeric_loop_columns)
  have iB: "i < length (records B)"
    unfolding B_def using iA by (simp only: numeric_cast_length)
  have "(records (foldl (numeric_cast lib) B post) ! i) ''iv'' = (records B ! i) ''iv''"
    using iB post by (rule numeric_loop_other)
  also have "\<dots> = Num (fdiv (to_numeric lib ((records A ! i) ''iv'')) (Fin 100))"
    unfolding B_def using iA ivA by (rule numeric_cast_iv)
  also have "(records A ! i) ''iv'' = (records out ! i) ''iv''"
    unfolding A_def using assms(1) pre by (rule numeric_loop_other)
  finally show ?thesis unfolding res .
qed

subsection \<open>\<open>coalesce_columns\<close>\<close>

lemma coalesce_columns_iv:
  assumes "coalesce_columns lib df = Inr out"
  shows "length (records out) = length (records df)"
    and "''iv'' \<in> set (columns out) \<longleftrightarrow>
          ''iv'' \<in> set (columns df) \<or> ''mark_iv'' \<in> set (columns df) \<or>
          ''implied_volatility'' \<in> set (columns df)"
    and "''iv'' \<in> set (columns out) \<Longrightarrow> i < length (records df) \<Longrightarrow>
          (records out ! i) ''iv'' =
            Num (fdiv (to_numeric lib ((records df ! i) (iv_source df))) (Fin 100))"
proof -
  define A where "A = foldl coalesce_alias df ALIASES"
  from assms obtain B where B: "timestamp_to_ms lib A = Inr B"
    and out: "out = foldl (numeric_cast lib)
        (if ''option_type'' \<in> set (columns B)
         then set_column ''option_type'' (\<lambda>r. norm_opt lib (r ''option_type'')) B else B)
        NUMERIC_TARGETS"
    by (auto simp: coalesce_columns_def Let_def A_def split: sum.splits)
  define C where "C = (if ''option_type'' \<in> set (columns B)
         then set_column ''option_type'' (\<lambda>r. norm_opt lib (r ''option_type'')) B else B)"
  have out': "out = foldl (numeric_cast lib) C NUMERIC_TARGETS"
    unfolding out C_def ..
  have lenA: "length (records A) = length (records df)"
    unfolding A_def by (rule alias_loop_iv(1))
  have lenB: "length (records B) = length (records df)"
    using timestamp_to_ms_Inr(2) [OF B] lenA by simp
  have lenC: "length (records C) = length (records df)"
    unfolding C_def using lenB by (simp add: set_column_records)
  show "length (records out) = length (records df)"
    unfolding out' using lenC by (simp only: numeric_loop_length)
  have colsB: "columns B = columns A"
    by (rule timestamp_to_ms_Inr(1) [OF B])
  have ivC: "''iv'' \<in> set (columns C) \<longleftrightarrow> ''iv'' \<in> set (columns A)"
    unfolding C_def by (simp add: set_column_columns colsB)
  have ivOut: "''iv'' \<in> set (columns out) \<longleftrightarrow> ''iv'' \<in> set (columns A)"
    unfolding out' by (simp only: numeric_loop_columns ivC)
  show "''iv'' \<in> set (columns out) \<longleftrightarrow>
      ''iv'' \<in> set (columns df) \<or> ''mark_iv'' \<in> set (columns df) \<or>
      ''implied_volatility'' \<in> set (columns df)"
    unfolding ivOut A_def by (rule alias_loop_iv(2))
  show "(records out ! i) ''iv'' =
      Num (fdiv (to_numeric lib ((records df ! i) (iv_source df))) (Fin 100))"
    if iv: "''iv'' \<in> set (columns out)" and i: "i < length (records df)"
  proof -
    have ivA: "''iv'' \<in> set (columns A)" using iv ivOut by simp
    have iC: "i < length (records C)" using i lenC by simp
    have "(records out ! i) ''iv'' = Num (fdiv (to_numeric lib ((records C ! i) ''iv'')) (Fin 100))"
      unfolding out' using iC ivA ivC by (intro numeric_loop_iv) simp_all
    also have "(records C ! i) ''iv'' = (records B ! i) ''iv''"
      unfolding C_def using i lenB by (simp add: set_column_records)
    also have "\<dots> = (records A ! i) ''iv''"
      using i lenA by (intro timestamp_to_ms_Inr(3) [OF B]) simp_all
    also have "\<dots> = (records df ! i) (iv_source df)"
      using ivA i unfolding A_def by (rule alias_loop_iv(3))
    finally show ?thesis .
  qed
qed

lemma coalesce_columns_keeps:
  assumes "coalesce_columns lib df = Inr out" and "c \<in> set (columns df)"
    and "c \<noteq> ''timestamp''" and "c \<noteq> ''option_type''" and "c \<notin> set NUMERIC_TARGETS"
    and "i < length (records df)"
  shows "(records out ! i) c = (records df ! i) c"
proof -
  define A where "A = foldl coalesce_alias df ALIASES"
  from assms(1) obtain B where B: "timestamp_to_ms lib A = Inr B"
    and out: "out = foldl (numeric_cast lib)
        (if ''option_type'' \<in> set (columns B)
         then set_column ''option_type'' (\<lambda>r. norm_opt lib (r ''option_type'')) B else B)
        NUMERIC_TARGETS"
    by (auto simp: coalesce_columns_def Let_def A_def split: sum.splits)
  define C where "C = (if ''option_type'' \<in> set (columns B)
         then set_column ''option_type'' (\<lambda>r. norm_opt lib (r ''option_type'')) B else B)"
  have out': "out = foldl (numeric_cast lib) C NUMERIC_TARGETS"
    unfolding out C_def ..
  have lenA: "length (records A) = length (records df)"
    unfolding A_def by (rule alias_loop_length)
  have lenB: "length (records B) = length (records df)"
    using timestamp_to_ms_Inr(2) [OF B] lenA by simp
  have lenC: "length (records C) = length (records df)"
    unfolding C_def using lenB by (simp add: set_column_records)
  have iC: "i < length (records C)" using assms(6) lenC by simp
  have "(records out ! i) c = (records C ! i) c"
    unfolding out' using iC assms(5) by (rule numeric_loop_other)
  also have "\<dots> = (records B ! i) c"
    unfolding C_def using assms(4,6) lenB by (simp add: set_column_records)
  also have "\<dots> = (records A ! i) c"
    using assms(3,6) lenA by (intro timestamp_to_ms_Inr(3) [OF B]) simp_all
  also have "\<dots> = (records df ! i) c"
    unfolding A_def using assms(2,6) by (intro alias_loop_cell) simp_all
  finally show ?thesis .
qed

lemma coalesce_columns_columns_mono:
  assumes "coalesce_columns lib df = Inr out"
  shows "set (columns df) \<subseteq> set (columns out)"
proof -
  define A where "A = foldl coalesce_alias df ALIASES"
  from assms(1) obtain B where B: "timestamp_to_ms lib A = Inr B"
    and out: "out = foldl (numeric_cast lib)
        (if ''option_type'' \<in> set (columns B)
         then set_column ''option_type'' (\<lambda>r. norm_opt lib (r ''option_type'')) B else B)
        NUMERIC_TARGETS"
    by (auto simp: coalesce_columns_def Let_def A_def split: sum.splits)
  have "set (columns df) \<subseteq> set (columns A)"
    unfolding A_def by (rule alias_loop_columns_mono)
  moreover have "columns B = columns A"
    by (rule timestamp_to_ms_Inr(1) [OF B])
  moreover have "columns out = columns B"
    unfolding out by (simp add: numeric_loop_columns set_column_columns)
  ultimately show ?thesis by simp
qed

subsection \<open>\<open>add_parsed_columns\<close>, sorting and deduplication\<close>

lemma set_add_columns: "set (add_columns cols cs) = set cols \<union> set cs"
  unfolding add_columns_def by (induction cs arbitrary: cols) auto

lemma add_parsed_columns_Inr:
  assumes "add_parsed_columns lib out col = Inr res"
  shows "length (records res) = length (records out)"
    and "set (columns out) \<subseteq> set (columns res)"
    and "set (columns res) \<subseteq>
          set (columns out) \<union> {''kind'', ''maturity'', ''option_type'', ''strike'', ''underlying''}"
    and "i < length (records out) \<Longrightarrow>
          c \<notin> {''kind'', ''maturity'', ''option_type'', ''strike'', ''underlying''} \<Longrightarrow>
          (records res ! i) c = (records out ! i) c"
proof -
  let ?f = "\<lambda>r. case parse_instrument_name (py_str lib (r col)) of
                  Inl e \<Rightarrow> Inl e
                | Inr p \<Rightarrow> Inr (fill_parsed out r p)"
  show "length (records res) = length (records out)"
    using assms
    by (auto simp: add_parsed_columns_def split: if_splits sum.splits dest: map_raise_Inr)
  show "set (columns out) \<subseteq> set (columns res)"
    using assms
    by (auto simp: add_parsed_columns_def set_add_columns split: if_splits sum.splits)
  show "set (columns res) \<subseteq>
      set (columns out) \<union> {''kind'', ''maturity'', ''option_type'', ''strike'', ''underlying''}"
    using assms
    by (auto simp: add_parsed_columns_def set_add_columns split: if_splits sum.splits)
  show "(records res ! i) c = (records out ! i) c"
    if i: "i < length (records out)"
      and c: "c \<notin> {''kind'', ''maturity'', ''option_type'', ''strike'', ''underlying''}"
  proof (cases "col \<in> set (columns out)")
    case False
    with assms show ?thesis by (simp add: add_parsed_columns_def)
  next
    case True
    with assms obtain rs where rs: "map_raise ?f (records out) = Inr rs"
      and res: "records res = rs"
      by (auto simp: add_parsed_columns_def split: sum.splits)
    from map_raise_Inr [OF rs] i have "?f (records out ! i) = Inr (rs ! i)" by simp
    then obtain p where "fill_parsed out (records out ! i) p = rs ! i"
      by (cases "parse_instrument_name (py_str lib ((records out ! i) col))") auto
    then have "(rs ! i) c = fill_parsed out (records out ! i) p c" by simp
    also have "\<dots> = (records out ! i) c"
      using c by (simp add: fill_parsed_def)
    finally show ?thesis by (simp add: res)
  qed
qed

lemma set_insert_by: "set (insert_by le x xs) = insert x (set xs)"
  by (induction xs) auto

lemma set_sort_by: "set (sort_by le xs) = set xs"
  unfolding sort_by_def by (induction xs) (simp_all add: set_insert_by)



lemma set_sort_values: "set (sort_values cs rs) = set rs"
  by (simp add: sort_values_def set_sort_by)

lemma set_drop_duplicates_last: "set (drop_duplicates_last cs rs) \<subseteq> set rs"
  by (induction rs) auto

lemma standardize_rows:
  assumes "standardize lib df = Inr s"
  obtains out where "coalesce_columns lib df = Inr out"
    and "''iv'' \<in> set (columns s) \<longleftrightarrow> ''iv'' \<in> set (columns out)"
    and "set (columns df) \<subseteq> set (columns s)"
    and "\<And>r. r \<in> set (records s) \<Longrightarrow> \<exists>i<length (records df).
         r ''iv'' = (records out ! i) ''iv'' \<and> r \<in> set (records s) \<and>
         (\<forall>c\<in>set (columns df). c \<notin> rewritten_columns \<longrightarrow> r c = (records df ! i) c)"
proof -
  from assms obtain out where out: "coalesce_columns lib df = Inr out"
    by (auto simp: standardize_def split: sum.splits)
  with assms obtain p where p: "add_parsed_columns lib out ''instrument_name'' = Inr p"
    by (auto simp: standardize_def split: sum.splits)
  define sort_cols where
    "sort_cols = filter (\<lambda>c. c \<in> set (columns p)) [''instrument_name'', ''slot_time_utc'']"
  have "standardize lib df = (if sort_cols \<noteq> []
      then Inr (p\<lparr>records := drop_duplicates_last sort_cols (sort_values sort_cols (records p))\<rparr>)
      else Inr p)"
    by (simp only: standardize_def out p sum.case Let_def sort_cols_def)
  with assms have s: "s = (if sort_cols \<noteq> []
      then p\<lparr>records := drop_duplicates_last sort_cols (sort_values sort_cols (records p))\<rparr>
      else p)"
    by (simp split: if_splits)
  have cols: "columns s = columns p" by (simp add: s)
  have sub: "set (records s) \<subseteq> set (records p)"
    using set_drop_duplicates_last [of sort_cols "sort_values sort_cols (records p)"]
    by (auto simp: s set_sort_values)
  have lenO: "length (records out) = length (records df)"
    by (rule coalesce_columns_iv(1) [OF out])
  have lenP: "length (records p) = length (records df)"
    using add_parsed_columns_Inr(1) [OF p] lenO by simp
  have iv: "''iv'' \<in> set (columns s) \<longleftrightarrow> ''iv'' \<in> set (columns out)"
    using add_parsed_columns_Inr(2,3) [OF p] by (auto simp: cols)
  have mono: "set (columns df) \<subseteq> set (columns s)"
    using coalesce_columns_columns_mono [OF out] add_parsed_columns_Inr(2) [OF p]
    by (auto simp: cols)
  have rows: "\<exists>i<length (records df).
         r ''iv'' = (records out ! i) ''iv'' \<and> r \<in> set (records s) \<and>
         (\<forall>c\<in>set (columns df). c \<notin> rewritten_columns \<longrightarrow> r c = (records df ! i) c)"
    if rs: "r \<in> set (records s)" for r
  proof -
    from that sub have "r \<in> set (records p)" by auto
    then obtain i where i: "i < length (records p)" and r: "r = records p ! i"
      by (auto simp: in_set_conv_nth)
    have i': "i < length (records df)" "i < length (records out)"
      using i lenP lenO by simp_all
    have a: "r ''iv'' = (records out ! i) ''iv''"
      unfolding r using i'(2) by (intro add_parsed_columns_Inr(4) [OF p]) simp_all
    have b: "\<forall>c\<in>set (columns df). c \<notin> rewritten_columns \<longrightarrow> r c = (records df ! i) c"
    proof (intro ballI impI)
      fix c
      assume c: "c \<in> set (columns df)" and m: "c \<notin> rewritten_columns"
      have "r c = (records out ! i) c"
        unfolding r using i'(2) m
        by (intro add_parsed_columns_Inr(4) [OF p]) (auto simp: rewritten_columns_def)
      also have "\<dots> = (records df ! i) c"
        using c m i'(1)
        by (intro coalesce_columns_keeps [OF out]) (auto simp: rewritten_columns_def)
      finally show "r c = (records df ! i) c" .
    qed
    show ?thesis
      by (rule exI [of _ i]) (simp add: i'(1) a b rs)
  qed
  show thesis
    using out iv mono rows by (rule that)
qed
text \<open>
  Claim C10. Whenever the result of \<open>coalesce_columns\<close> has a column \<open>iv\<close>, every
  cell of it is the numeric value of the input's \<open>iv\<close> cell (or of the alias it was
  taken from) divided by 100, whatever the value. \<open>standardize\<close> keeps these cells for
  the rows it keeps, so a second \<open>standardize\<close> divides by 100 again: every row of the
  second result is a row of the first with the same instrument and slot, and its \<open>iv\<close>
  is the original value divided by 10000.
\<close>

theorem coalesce_columns_divides_iv:
  "(\<forall>out. coalesce_columns lib df = Inr out \<and> ''iv'' \<in> set (columns out) \<longrightarrow>
      length (records out) = length (records df) \<and>
      (\<forall>i<length (records df).
         (records out ! i) ''iv'' =
           Num (fdiv (to_numeric lib ((records df ! i) (iv_source df))) (Fin 100)))) \<and>
   (\<forall>s1 s2. standardize lib df = Inr s1 \<and> standardize lib s1 = Inr s2 \<and>
        ''iv'' \<in> set (columns s1) \<longrightarrow>
      (\<forall>r2\<in>set (records s2). \<exists>r1\<in>set (records s1). \<exists>r0\<in>set (records df).
         r1 ''iv'' = Num (fdiv (to_numeric lib (r0 (iv_source df))) (Fin 100)) \<and>
         r2 ''iv'' = Num (fdiv (num_of (r1 ''iv'')) (Fin 100)) \<and>
         r2 ''iv'' = Num (fdiv (to_numeric lib (r0 (iv_source df))) (Fin 10000)) \<and>
         (''instrument_name'' \<in> set (columns s1) \<longrightarrow>
            r2 ''instrument_name'' = r1 ''instrument_name'') \<and>
         (''slot_time_utc'' \<in> set (columns s1) \<longrightarrow>
            r2 ''slot_time_utc'' = r1 ''slot_time_utc'')))"
proof (rule conjI, rule allI, rule impI)
  fix out
  assume a: "coalesce_columns lib df = Inr out \<and> ''iv'' \<in> set (columns out)"
  then have out: "coalesce_columns lib df = Inr out" and iv: "''iv'' \<in> set (columns out)"
    by simp_all
  have "length (records out) = length (records df)"
    by (rule coalesce_columns_iv(1) [OF out])
  moreover have "\<forall>i<length (records df).
         (records out ! i) ''iv'' =
           Num (fdiv (to_numeric lib ((records df ! i) (iv_source df))) (Fin 100))"
    using coalesce_columns_iv(3) [OF out iv] by simp
  ultimately show "length (records out) = length (records df) \<and>
      (\<forall>i<length (records df).
         (records out ! i) ''iv'' =
           Num (fdiv (to_numeric lib ((records df ! i) (iv_source df))) (Fin 100)))"
    by (rule conjI)
next
  show "\<forall>s1 s2. standardize lib df = Inr s1 \<and> standardize lib s1 = Inr s2 \<and>
        ''iv'' \<in> set (columns s1) \<longrightarrow>
      (\<forall>r2\<in>set (records s2). \<exists>r1\<in>set (records s1). \<exists>r0\<in>set (records df).
         r1 ''iv'' = Num (fdiv (to_numeric lib (r0 (iv_source df))) (Fin 100)) \<and>
         r2 ''iv'' = Num (fdiv (num_of (r1 ''iv'')) (Fin 100)) \<and>
         r2 ''iv'' = Num (fdiv (to_numeric lib (r0 (iv_source df))) (Fin 10000)) \<and>
         (''instrument_name'' \<in> set (columns s1) \<longrightarrow>
            r2 ''instrument_name'' = r1 ''instrument_name'') \<and>
         (''slot_time_utc'' \<in> set (columns s1) \<longrightarrow>
            r2 ''slot_time_utc'' = r1 ''slot_time_utc''))"
  proof (rule allI, rule allI, rule impI)
  fix s1 s2
  assume a: "standardize lib df = Inr s1 \<and> standardize lib s1 = Inr s2 \<and>
      ''iv'' \<in> set (columns s1)"
  then have s1: "standardize lib df = Inr s1" and s2: "standardize lib s1 = Inr s2"
    and iv1: "''iv'' \<in> set (columns s1)"
    by simp_all
  obtain out1 where out1: "coalesce_columns lib df = Inr out1"
    and ivo1: "''iv'' \<in> set (columns s1) \<longleftrightarrow> ''iv'' \<in> set (columns out1)"
    and "set (columns df) \<subseteq> set (columns s1)"
    and rows1: "\<And>r. r \<in> set (records s1) \<Longrightarrow> \<exists>i<length (records df).
         r ''iv'' = (records out1 ! i) ''iv'' \<and> r \<in> set (records s1) \<and>
         (\<forall>c\<in>set (columns df). c \<notin> rewritten_columns \<longrightarrow> r c = (records df ! i) c)"
    by (rule standardize_rows [OF s1]) blast
  obtain out2 where out2: "coalesce_columns lib s1 = Inr out2"
    and "''iv'' \<in> set (columns s2) \<longleftrightarrow> ''iv'' \<in> set (columns out2)"
    and "set (columns s1) \<subseteq> set (columns s2)"
    and rows2: "\<And>r. r \<in> set (records s2) \<Longrightarrow> \<exists>i<length (records s1).
         r ''iv'' = (records out2 ! i) ''iv'' \<and> r \<in> set (records s2) \<and>
         (\<forall>c\<in>set (columns s1). c \<notin> rewritten_columns \<longrightarrow> r c = (records s1 ! i) c)"
    by (rule standardize_rows [OF s2]) blast
  have ivout1: "''iv'' \<in> set (columns out1)" using iv1 ivo1 by simp
  have ivout2: "''iv'' \<in> set (columns out2)"
    using coalesce_columns_iv(2) [OF out2] iv1 by simp
  have src1: "iv_source s1 = ''iv''" using iv1 by (simp add: iv_source_def)
  have first: "\<exists>r0\<in>set (records df).
      r1 ''iv'' = Num (fdiv (to_numeric lib (r0 (iv_source df))) (Fin 100))"
    if "r1 \<in> set (records s1)" for r1
  proof -
    from rows1 [OF that] obtain i where i: "i < length (records df)"
      and r1: "r1 ''iv'' = (records out1 ! i) ''iv''" by blast
    have "r1 ''iv'' = Num (fdiv (to_numeric lib ((records df ! i) (iv_source df))) (Fin 100))"
      unfolding r1 using ivout1 i by (rule coalesce_columns_iv(3) [OF out1])
    moreover have "records df ! i \<in> set (records df)" using i by simp
    ultimately show ?thesis by blast
  qed
  show "\<forall>r2\<in>set (records s2). \<exists>r1\<in>set (records s1). \<exists>r0\<in>set (records df).
         r1 ''iv'' = Num (fdiv (to_numeric lib (r0 (iv_source df))) (Fin 100)) \<and>
         r2 ''iv'' = Num (fdiv (num_of (r1 ''iv'')) (Fin 100)) \<and>
         r2 ''iv'' = Num (fdiv (to_numeric lib (r0 (iv_source df))) (Fin 10000)) \<and>
         (''instrument_name'' \<in> set (columns s1) \<longrightarrow>
            r2 ''instrument_name'' = r1 ''instrument_name'') \<and>
         (''slot_time_utc'' \<in> set (columns s1) \<longrightarrow>
            r2 ''slot_time_utc'' = r1 ''slot_time_utc'')"
  proof
    fix r2
    assume "r2 \<in> set (records s2)"
    from rows2 [OF this] obtain j where j: "j < length (records s1)"
      and r2: "r2 ''iv'' = (records out2 ! j) ''iv''"
      and keep: "\<forall>c\<in>set (columns s1). c \<notin> rewritten_columns \<longrightarrow> r2 c = (records s1 ! j) c"
      by blast
    define r1 where "r1 = records s1 ! j"
    have r1in: "r1 \<in> set (records s1)" using j by (simp add: r1_def)
    from first [OF r1in] obtain r0 where r0: "r0 \<in> set (records df)"
      and r1iv: "r1 ''iv'' = Num (fdiv (to_numeric lib (r0 (iv_source df))) (Fin 100))"
      by blast
    have "r2 ''iv'' = Num (fdiv (to_numeric lib ((records s1 ! j) (iv_source s1))) (Fin 100))"
      unfolding r2 using ivout2 j by (rule coalesce_columns_iv(3) [OF out2])
    then have r2iv: "r2 ''iv'' = Num (fdiv (to_numeric lib (r1 ''iv'')) (Fin 100))"
      by (simp add: src1 r1_def)
    have num: "to_numeric lib (r1 ''iv'') = num_of (r1 ''iv'')"
      by (simp add: r1iv)
    have b: "r2 ''iv'' = Num (fdiv (num_of (r1 ''iv'')) (Fin 100))"
      using r2iv num by simp
    have c: "r2 ''iv'' = Num (fdiv (to_numeric lib (r0 (iv_source df))) (Fin 10000))"
      using b by (simp add: r1iv fdiv_100_twice)
    have k1: "r2 ''instrument_name'' = r1 ''instrument_name''"
      if "''instrument_name'' \<in> set (columns s1)"
      using keep that by (simp add: r1_def rewritten_columns_def NUMERIC_TARGETS_def)
    have k2: "r2 ''slot_time_utc'' = r1 ''slot_time_utc''"
      if "''slot_time_utc'' \<in> set (columns s1)"
      using keep that by (simp add: r1_def rewritten_columns_def NUMERIC_TARGETS_def)
    show "\<exists>r1\<in>set (records s1). \<exists>r0\<in>set (records df).
         r1 ''iv'' = Num (fdiv (to_numeric lib (r0 (iv_source df))) (Fin 100)) \<and>
         r2 ''iv'' = Num (fdiv (num_of (r1 ''iv'')) (Fin 100)) \<and>
         r2 ''iv'' = Num (fdiv (to_numeric lib (r0 (iv_source df))) (Fin 10000)) \<and>
         (''instrument_name'' \<in> set (columns s1) \<longrightarrow>
            r2 ''instrument_name'' = r1 ''instrument_name'') \<and>
         (''slot_time_utc'' \<in> set (columns s1) \<longrightarrow>
            r2 ''slot_time_utc'' = r1 ''slot_time_utc'')"
      using r1in r0 r1iv b c k1 k2 by (intro bexI [of _ r1] bexI [of _ r0]) simp_all
  qed
qed
qed

theorem coalesce_columns_divides_iv_witness:
  "column_of (coalesce_columns example_lib raw_example) ''iv'' =
     Inr [Num (Fin 0.55), Num (Fin 0.005), Num (Fin 0.6)] \<and>
   column_of (standardize example_lib raw_example) ''instrument_name'' =
     Inr [Str ''BTC-27OCT25-65000-C'', Str ''BTC-27OCT25-70000-P''] \<and>
   column_of (standardize example_lib raw_example) ''iv'' =
     Inr [Num (Fin 0.6), Num (Fin 0.005)] \<and>
   column_of (standardize example_lib percent_example) ''iv'' =
     Inr [Num (Fin 0.005), Num (Fin 0.55)] \<and>
   column_of (standardize_twice example_lib percent_example) ''iv'' =
     Inr [Num (Fin 0.00005), Num (Fin 0.0055)]"
proof -
  have "\<not> isl (coalesce_columns example_lib raw_example)"
    by code_simp
  then obtain out where out: "coalesce_columns example_lib raw_example = Inr out"
    by (cases "coalesce_columns example_lib raw_example") auto
  have iv: "''iv'' \<in> set (columns out)"
    using coalesce_columns_iv(2) [OF out] by (simp add: raw_example_def frame_of_def)
  from coalesce_columns_divides_iv [of example_lib raw_example] out iv
  have len: "length (records out) = length (records raw_example)"
    and cells: "\<forall>i<length (records raw_example). (records out ! i) ''iv'' =
        Num (fdiv (to_numeric example_lib ((records raw_example ! i) (iv_source raw_example)))
               (Fin 100))"
    by blast+
  have src: "map (\<lambda>r. Num (fdiv (to_numeric example_lib (r (iv_source raw_example))) (Fin 100)))
      (records raw_example) = [Num (Fin 0.55), Num (Fin 0.005), Num (Fin 0.6)]"
    by code_simp
  have "map (\<lambda>r. r ''iv'') (records out) =
      map (\<lambda>r. Num (fdiv (to_numeric example_lib (r (iv_source raw_example))) (Fin 100)))
        (records raw_example)"
    using len cells by (intro nth_equalityI) simp_all
  then have a: "column_of (coalesce_columns example_lib raw_example) ''iv'' =
      Inr [Num (Fin 0.55), Num (Fin 0.005), Num (Fin 0.6)]"
    by (simp add: out column_of_def src)
  have b: "column_of (standardize example_lib raw_example) ''instrument_name'' =
      Inr [Str ''BTC-27OCT25-65000-C'', Str ''BTC-27OCT25-70000-P'']"
    by code_simp
  have c: "column_of (standardize example_lib raw_example) ''iv'' =
      Inr [Num (Fin 0.6), Num (Fin 0.005)]"
    by code_simp
  have d: "column_of (standardize example_lib percent_example) ''iv'' =
      Inr [Num (Fin 0.005), Num (Fin 0.55)]"
    by code_simp
  have e: "column_of (standardize_twice example_lib percent_example) ''iv'' =
      Inr [Num (Fin 0.00005), Num (Fin 0.0055)]"
    by code_simp
  show ?thesis
    using a b c d e by (intro conjI)
qed

section \<open>Properties of the aggregation\<close>











end
